theory Spec2Isabelle
  imports Complex_Main "HOL-Library.Sublist"
begin

section \<open>Exceptions and results\<close>

text \<open>
  A Python exception is a value: its class and its message (\<open>str(e)\<close>). Every class
  below is a subclass of \<open>Exception\<close>, so each of them is caught by
  \<open>except Exception\<close>; \<open>JSONDecodeError\<close> is a subclass of \<open>ValueError\<close> (an external
  library that raises another subclass of \<open>ValueError\<close> is modelled as returning the
  class \<open>ValueError\<close>). A function that may raise returns \<open>error + 'a\<close>, with
  \<open>Inl\<close> for the exception.
\<close>

datatype exc_class =
  ValueError | JSONDecodeError | OverflowError | AttributeError | IndexError | TypeError
  | OtherException

datatype error = Exc exc_class string

fun exc_class_of :: "error \<Rightarrow> exc_class" where
  "exc_class_of (Exc c m) = c"

fun str_exc :: "error \<Rightarrow> string" where
  "str_exc (Exc c m) = m"

definition bind :: "error + 'a \<Rightarrow> ('a \<Rightarrow> error + 'b) \<Rightarrow> error + 'b" where
  "bind m f = (case m of Inl e \<Rightarrow> Inl e | Inr x \<Rightarrow> f x)"

section \<open>Data model (models/schemas.py)\<close>

text \<open>
  A Python float is a finite rational, a NaN or an infinity. The rounding of an
  arithmetic result to binary64 is a parameter of the model (\<open>fl\<close> below).
\<close>

datatype pyfloat = Finite rat | NaN | PosInf | NegInf

record BoundingBox =
  ymin :: pyfloat
  xmin :: pyfloat
  ymax :: pyfloat
  xmax :: pyfloat

record QuestionSegment =
  qs_id :: string
  qs_boundingBox :: BoundingBox
  qs_text :: string
  qs_cropUrl :: "string option"
  qs_imageUrl :: "string option"
  qs_sourceImageUrl :: "string option"
  qs_subject :: "string option"
  qs_chapter :: "string option"
  qs_correctAnswer :: "string option"

record AnalysisResult =
  questions :: "QuestionSegment list"

record CroppedSegment =
  cs_id :: string
  cs_boundingBox :: BoundingBox
  cs_text :: string
  cs_cropUrl :: string
  cs_subject :: "string option"
  cs_chapter :: "string option"
  cs_correctAnswer :: "string option"

record CropImageResponse =
  cr_success :: bool
  cr_segments :: "CroppedSegment list"
  cr_error :: "string option"

section \<open>The image library\<close>

text \<open>
  The image type of the imaging library is abstract (\<open>'img\<close>). What the library does is
  a parameter of every function below:
  \<^item> \<open>fl\<close>: the rounding of an exact arithmetic result to the nearest float;
  \<^item> \<open>image_open\<close>: \<open>Image.open(io.BytesIO(base64.b64decode(s))).convert("RGB")\<close>, which
    raises on a payload that is not an image;
  \<^item> \<open>image_size\<close>: \<open>img.size\<close>;
  \<^item> \<open>render_png\<close>: for a crop box and a canvas size that pass the library's size checks,
    the base64 text of the PNG of the white canvas with the cropped region pasted on it
    (\<open>crop\<close>, \<open>paste\<close>, \<open>save\<close>, \<open>b64encode\<close>), or the exception one of them raises.
\<close>

record 'img imaging =
  fl :: "rat \<Rightarrow> rat"
  image_open :: "string \<Rightarrow> error + 'img"
  image_size :: "'img \<Rightarrow> int \<times> int"
  render_png :: "'img \<Rightarrow> int \<times> int \<times> int \<times> int \<Rightarrow> int \<times> int \<Rightarrow> error + string"

section \<open>Strings\<close>

text \<open>\<open>s.split(sep)\<close> for a non-empty separator: the pieces of \<open>s\<close> between the
  occurrences of \<open>sep\<close>, scanned from the left.\<close>

function split_acc :: "string \<Rightarrow> string \<Rightarrow> string \<Rightarrow> string list" where
  "split_acc sep acc [] = [rev acc]"
| "split_acc sep acc (c # cs) =
     (if sep \<noteq> [] \<and> prefix sep (c # cs)
      then rev acc # split_acc sep [] (drop (length sep) (c # cs))
      else split_acc sep (c # acc) cs)"
  by pat_completeness auto
termination
  by (relation "measure (\<lambda>(sep, acc, s). length s)") auto

definition split :: "string \<Rightarrow> string \<Rightarrow> string list" where
  "split s sep = split_acc sep [] s"

text \<open>\<open>if "base64," in s: s = s.split("base64,")[1]\<close>: the data URL prefix is removed.
  The separator occurs in \<open>s\<close> exactly when the split has more than one piece.\<close>

definition strip_data_url :: "string \<Rightarrow> string" where
  "strip_data_url s =
     (case split s ''base64,'' of
        a # b # rest \<Rightarrow> b
      | _ \<Rightarrow> s)"

section \<open>Crop engine (services/image.py)\<close>

text \<open>\<open>int(x)\<close> on a float truncates towards zero, and raises on a NaN or an infinity.\<close>

definition trunc :: "rat \<Rightarrow> int" where
  "trunc r = (if 0 \<le> r then \<lfloor>r\<rfloor> else \<lceil>r\<rceil>)"

fun py_int :: "pyfloat \<Rightarrow> error + int" where
  "py_int (Finite r) = Inr (trunc r)"
| "py_int NaN = Inl (Exc ValueError ''cannot convert float NaN to integer'')"
| "py_int PosInf = Inl (Exc OverflowError ''cannot convert float infinity to integer'')"
| "py_int NegInf = Inl (Exc OverflowError ''cannot convert float infinity to integer'')"

text \<open>\<open>(v / 1000) * n\<close> for a float \<open>v\<close> and an int \<open>n\<close>: two float operations, each
  rounded. The rounding \<open>rnd\<close> gives a finite value: the overflow of a finite product to
  an infinity (a coordinate beyond \<open>1e305\<close>) is not modelled; there \<open>int\<close> raises
  \<open>OverflowError\<close> as it does below for an infinite coordinate.\<close>

fun scale :: "(rat \<Rightarrow> rat) \<Rightarrow> pyfloat \<Rightarrow> int \<Rightarrow> pyfloat" where
  "scale rnd (Finite r) n = Finite (rnd (rnd (r / 1000) * of_int n))"
| "scale rnd NaN n = NaN"
| "scale rnd PosInf n = (if 0 < n then PosInf else if n < 0 then NegInf else NaN)"
| "scale rnd NegInf n = (if 0 < n then NegInf else if n < 0 then PosInf else NaN)"

text \<open>Lines 115 to 124 of \<open>_crop_segment\<close>: scale, truncate, pad, clamp.\<close>

definition crop_box ::
  "(rat \<Rightarrow> rat) \<Rightarrow> int \<Rightarrow> BoundingBox \<Rightarrow> int \<Rightarrow> int \<Rightarrow> error + (int \<times> int \<times> int \<times> int)" where
  "crop_box rnd padding bbox width height =
     bind (py_int (scale rnd (xmin bbox) width)) (\<lambda>x1.
     bind (py_int (scale rnd (ymin bbox) height)) (\<lambda>y1.
     bind (py_int (scale rnd (xmax bbox) width)) (\<lambda>x2.
     bind (py_int (scale rnd (ymax bbox) height)) (\<lambda>y2.
       Inr (max 0 (x1 - padding), max 0 (y1 - padding),
            min width (x2 + padding), min height (y2 + padding))))))"

text \<open>Lines 130 and 131: the canvas has the size of the clamped rectangle.\<close>

fun canvas_size :: "int \<times> int \<times> int \<times> int \<Rightarrow> int \<times> int" where
  "canvas_size (x1, y1, x2, y2) = (x2 - x1, y2 - y1)"

text \<open>
  \<open>_crop_segment\<close>. \<open>Image.crop\<close> and \<open>Image.new\<close> raise \<open>ValueError\<close> on a box whose
  right edge is left of its left edge or whose lower edge is above its upper edge (a
  negative canvas width or height); everything else the library does is \<open>render_png\<close>.
\<close>

definition crop_segment ::
  "'img imaging \<Rightarrow> int \<Rightarrow> 'img \<Rightarrow> BoundingBox \<Rightarrow> int \<Rightarrow> int \<Rightarrow> error + string" where
  "crop_segment L padding img bbox width height =
     bind (crop_box (fl L) padding bbox width height) (\<lambda>box.
       if fst (canvas_size box) < 0 \<or> snd (canvas_size box) < 0
       then Inl (Exc ValueError ''Width and height must be >= 0'')
       else bind (render_png L img box (canvas_size box)) (\<lambda>base64_str.
              Inr (''data:image/png;base64,'' @ base64_str)))"

definition decode_image :: "'img imaging \<Rightarrow> string \<Rightarrow> error + 'img" where
  "decode_image L base64_image = image_open L (strip_data_url base64_image)"

text \<open>The body of the loop of \<open>extract_crops\<close>: the \<open>try\<close> and its \<open>except Exception\<close>.\<close>

definition crop_one ::
  "'img imaging \<Rightarrow> int \<Rightarrow> 'img \<Rightarrow> int \<Rightarrow> int \<Rightarrow> QuestionSegment \<Rightarrow> CroppedSegment" where
  "crop_one L padding img width height segment =
     (case crop_segment L padding img (qs_boundingBox segment) width height of
        Inr crop_url \<Rightarrow>
          \<lparr>cs_id = qs_id segment, cs_boundingBox = qs_boundingBox segment,
           cs_text = qs_text segment, cs_cropUrl = crop_url,
           cs_subject = qs_subject segment, cs_chapter = qs_chapter segment,
           cs_correctAnswer = qs_correctAnswer segment\<rparr>
      | Inl e \<Rightarrow>
          \<lparr>cs_id = qs_id segment, cs_boundingBox = qs_boundingBox segment,
           cs_text = qs_text segment, cs_cropUrl = '''',
           cs_subject = qs_subject segment, cs_chapter = qs_chapter segment,
           cs_correctAnswer = qs_correctAnswer segment\<rparr>)"

fun crop_loop ::
  "'img imaging \<Rightarrow> int \<Rightarrow> 'img \<Rightarrow> int \<Rightarrow> int \<Rightarrow> QuestionSegment list \<Rightarrow>
   CroppedSegment list \<Rightarrow> CroppedSegment list" where
  "crop_loop L padding img width height [] cropped_segments = cropped_segments"
| "crop_loop L padding img width height (segment # rest) cropped_segments =
     crop_loop L padding img width height rest
       (cropped_segments @ [crop_one L padding img width height segment])"

definition extract_crops ::
  "'img imaging \<Rightarrow> int \<Rightarrow> string \<Rightarrow> QuestionSegment list \<Rightarrow> error + CroppedSegment list" where
  "extract_crops L padding base64_image segments =
     bind (decode_image L base64_image) (\<lambda>img.
       case image_size L img of (width, height) \<Rightarrow>
         Inr (crop_loop L padding img width height segments []))"

text \<open>\<open>extract_single_crop\<close>: no \<open>try\<close>, so a failure of the crop propagates.\<close>

definition extract_single_crop ::
  "'img imaging \<Rightarrow> int \<Rightarrow> string \<Rightarrow> BoundingBox \<Rightarrow> error + string" where
  "extract_single_crop L padding base64_image bounding_box =
     bind (decode_image L base64_image) (\<lambda>img.
       case image_size L img of (width, height) \<Rightarrow>
         crop_segment L padding img bounding_box width height)"

text \<open>The endpoint \<open>POST /api/crop\<close> (routers/analyze.py, \<open>crop_image\<close>), with the default
  padding of \<open>get_image_service\<close>.\<close>

definition default_padding :: int where
  "default_padding = 10"

definition crop_image :: "'img imaging \<Rightarrow> string \<Rightarrow> QuestionSegment list \<Rightarrow> CropImageResponse" where
  "crop_image L image_b64 segments =
     (case extract_crops L default_padding image_b64 segments of
        Inr cropped \<Rightarrow> \<lparr>cr_success = True, cr_segments = cropped, cr_error = None\<rparr>
      | Inl e \<Rightarrow> \<lparr>cr_success = False, cr_segments = [], cr_error = Some (str_exc e)\<rparr>)"

section \<open>Segmentation client (services/gemini.py)\<close>

text \<open>The value \<open>json.loads\<close> returns. An object is the association list of its keys;
  \<open>map_of\<close> is the lookup of the resulting dict.\<close>

datatype json =
    JNull
  | JBool bool
  | JNum pyfloat
  | JStr string
  | JArr "json list"
  | JObj "(string \<times> json) list"

text \<open>
  What the client does not implement itself is a parameter:
  \<^item> \<open>api_key\<close>: the environment variable \<open>GEMINI_API_KEY\<close>;
  \<open>b64decode\<close>: \<open>base64.b64decode\<close>;
  \<^item> \<open>generate_content\<close>: the text of the response (\<open>response.text\<close>, which may be
    \<open>None\<close>) of the \<open>n\<close>-th call of the external model on the image bytes and MIME type,
    or the exception the call raises;
  \<^item> \<open>json_loads\<close>: \<open>json.loads\<close>, which raises \<open>JSONDecodeError\<close> on a text that is not
    JSON;
  \<^item> \<open>str_json\<close>: \<open>str(v)\<close> of a value that is not a string;
  \<^item> \<open>lax_str\<close>, \<open>lax_float\<close>: what the validation of a \<open>str\<close> or \<open>float\<close> field of a
    pydantic model does with a value of another type (coerce it, or raise a validation
    error, a subclass of \<open>ValueError\<close>).
\<close>

record genai =
  api_key :: "string option"
  b64decode :: "string \<Rightarrow> error + string"
  generate_content :: "nat \<Rightarrow> string \<Rightarrow> string option \<Rightarrow> error + string option"
  json_loads :: "string \<Rightarrow> error + json"
  str_json :: "json \<Rightarrow> string"
  lax_str :: "json \<Rightarrow> error + string"
  lax_float :: "json \<Rightarrow> error + pyfloat"

text \<open>\<open>GeminiService.__init__\<close> through \<open>get_gemini_service\<close>: no key, no service.\<close>

definition get_gemini_service :: "genai \<Rightarrow> error + unit" where
  "get_gemini_service G =
     (if api_key G = None \<or> api_key G = Some []
      then Inl (Exc ValueError ''GEMINI_API_KEY environment variable is required'')
      else Inr ())"

text \<open>\<open>_decode_base64\<close>: pad to a multiple of four, then decode.\<close>

definition decode_base64 :: "genai \<Rightarrow> string \<Rightarrow> error + string" where
  "decode_base64 G base64_string =
     (let padding = 4 - int (length base64_string mod 4)
      in if padding \<noteq> 4
         then b64decode G (base64_string @ replicate (nat padding) (CHR ''=''))
         else b64decode G base64_string)"

text \<open>\<open>str.strip()\<close>: white space is removed at both ends. A character of a
  string is a code point below 256; the white space among them is the twelve code
  points below (the white space of Unicode beyond 255 is outside this string type).\<close>

definition isspace :: "char \<Rightarrow> bool" where
  "isspace c = (c \<in> set [CHR 0x09, CHR 0x0A, CHR 0x0B, CHR 0x0C, CHR 0x0D,
                          CHR 0x1C, CHR 0x1D, CHR 0x1E, CHR 0x1F, CHR 0x20,
                          CHR 0x85, CHR 0xA0])"

definition strip :: "string \<Rightarrow> string" where
  "strip s = rev (dropWhile isspace (rev (dropWhile isspace s)))"

text \<open>\<open>d.get(k, default)\<close>: only a dict has the method; iterating a value in a \<open>for\<close>
  loop: a list gives its items, a dict its keys, a string its characters, anything else
  is not iterable.\<close>

fun dict_get :: "json \<Rightarrow> string \<Rightarrow> json \<Rightarrow> error + json" where
  "dict_get (JObj kvs) k d = Inr (case map_of kvs k of Some v \<Rightarrow> v | None \<Rightarrow> d)"
| "dict_get v k d = Inl (Exc AttributeError ''object has no attribute get'')"

fun py_iter :: "json \<Rightarrow> error + json list" where
  "py_iter (JArr xs) = Inr xs"
| "py_iter (JObj kvs) = Inr (map (\<lambda>kv. JStr (fst kv)) kvs)"
| "py_iter (JStr s) = Inr (map (\<lambda>c. JStr [c]) s)"
| "py_iter v = Inl (Exc TypeError ''object is not iterable'')"

text \<open>Field validation of the pydantic models: \<open>str(v)\<close>, a \<open>str\<close> field, an
  \<open>Optional[str]\<close> field and a \<open>float\<close> field.\<close>

fun py_str :: "genai \<Rightarrow> json \<Rightarrow> string" where
  "py_str G (JStr s) = s"
| "py_str G v = str_json G v"

fun validate_str :: "genai \<Rightarrow> json \<Rightarrow> error + string" where
  "validate_str G (JStr s) = Inr s"
| "validate_str G v = lax_str G v"

fun validate_opt_str :: "genai \<Rightarrow> json \<Rightarrow> error + string option" where
  "validate_opt_str G JNull = Inr None"
| "validate_opt_str G v = bind (validate_str G v) (\<lambda>s. Inr (Some s))"

fun validate_float :: "genai \<Rightarrow> json \<Rightarrow> error + pyfloat" where
  "validate_float G (JNum f) = Inr f"
| "validate_float G v = lax_float G v"

text \<open>The body of the loop over \<open>result_data.get("questions", [])\<close> (lines 155 to 167):
  the lookups and their defaults, then the two model constructors.\<close>

definition decode_question :: "genai \<Rightarrow> json \<Rightarrow> error + QuestionSegment" where
  "decode_question G q =
     bind (dict_get q ''boundingBox'' (JObj [])) (\<lambda>bbox.
     bind (dict_get q ''id'' (JStr [])) (\<lambda>v_id.
     bind (dict_get q ''text'' (JStr [])) (\<lambda>v_text.
     bind (dict_get q ''subject'' JNull) (\<lambda>v_subject.
     bind (dict_get q ''correctAnswer'' JNull) (\<lambda>v_answer.
     bind (dict_get bbox ''ymin'' (JNum (Finite 0))) (\<lambda>v_ymin.
     bind (dict_get bbox ''xmin'' (JNum (Finite 0))) (\<lambda>v_xmin.
     bind (dict_get bbox ''ymax'' (JNum (Finite 1000))) (\<lambda>v_ymax.
     bind (dict_get bbox ''xmax'' (JNum (Finite 1000))) (\<lambda>v_xmax.
     bind (validate_float G v_ymin) (\<lambda>f_ymin.
     bind (validate_float G v_xmin) (\<lambda>f_xmin.
     bind (validate_float G v_ymax) (\<lambda>f_ymax.
     bind (validate_float G v_xmax) (\<lambda>f_xmax.
     bind (validate_str G v_text) (\<lambda>s_text.
     bind (validate_opt_str G v_subject) (\<lambda>s_subject.
     bind (validate_opt_str G v_answer) (\<lambda>s_answer.
       Inr \<lparr>qs_id = py_str G v_id,
            qs_boundingBox = \<lparr>ymin = f_ymin, xmin = f_xmin, ymax = f_ymax, xmax = f_xmax\<rparr>,
            qs_text = s_text, qs_cropUrl = None, qs_imageUrl = None,
            qs_sourceImageUrl = None, qs_subject = s_subject, qs_chapter = None,
            qs_correctAnswer = s_answer\<rparr>))))))))))))))))"

fun decode_questions ::
  "genai \<Rightarrow> json list \<Rightarrow> QuestionSegment list \<Rightarrow> error + QuestionSegment list" where
  "decode_questions G [] question_list = Inr question_list"
| "decode_questions G (q # rest) question_list =
     bind (decode_question G q) (\<lambda>segment.
       decode_questions G rest (question_list @ [segment]))"

text \<open>The \<open>try\<close> block of \<open>GeminiService.analyze_image\<close>, for the \<open>n\<close>-th call of the
  external model.\<close>

definition analyze_image_body :: "genai \<Rightarrow> nat \<Rightarrow> string \<Rightarrow> string option \<Rightarrow> error + AnalysisResult" where
  "analyze_image_body G n base64_image mime_type =
     bind (decode_base64 G (strip_data_url base64_image)) (\<lambda>data.
     bind (generate_content G n data mime_type) (\<lambda>response_text.
       case response_text of
         None \<Rightarrow> Inl (Exc ValueError ''Empty response from Gemini'')
       | Some txt \<Rightarrow>
           if txt = [] then Inl (Exc ValueError ''Empty response from Gemini'')
           else
             bind (json_loads G (strip txt)) (\<lambda>result_data.
             bind (dict_get result_data ''questions'' (JArr [])) (\<lambda>qs.
             bind (py_iter qs) (\<lambda>items.
             bind (decode_questions G items []) (\<lambda>question_list.
               Inr \<lparr>questions = question_list\<rparr>))))))"

text \<open>\<open>GeminiService.analyze_image\<close>: a \<open>JSONDecodeError\<close> becomes a \<open>ValueError\<close>, any
  other exception is raised again.\<close>

definition gemini_analyze_image ::
  "genai \<Rightarrow> nat \<Rightarrow> string \<Rightarrow> string option \<Rightarrow> error + AnalysisResult" where
  "gemini_analyze_image G n base64_image mime_type =
     (case analyze_image_body G n base64_image mime_type of
        Inl (Exc c m) \<Rightarrow>
          if c = JSONDecodeError
          then Inl (Exc ValueError (''Failed to parse Gemini response: '' @ m))
          else Inl (Exc c m)
      | Inr result \<Rightarrow> Inr result)"

section \<open>Endpoints (routers/analyze.py)\<close>

text \<open>An endpoint returns its response model, or raises \<open>HTTPException\<close>, which the
  framework turns into a protocol-level error response with that status code.
  \<open>time.time()\<close> is a parameter: \<open>clock k\<close> is its \<open>k\<close>-th reading during the request.\<close>

datatype http_error = HTTPException int string

record AnalyzeImageResponse =
  air_success :: bool
  air_questions :: "QuestionSegment list"
  air_error :: "string option"
  air_processingTimeMs :: "int option"

text \<open>\<open>except ValueError\<close> catches \<open>ValueError\<close> and its subclass \<open>JSONDecodeError\<close>.\<close>

definition is_ValueError :: "error \<Rightarrow> bool" where
  "is_ValueError e = (exc_class_of e = ValueError \<or> exc_class_of e = JSONDecodeError)"

text \<open>\<open>POST /api/analyze\<close>.\<close>

definition analyze_image ::
  "genai \<Rightarrow> (nat \<Rightarrow> rat) \<Rightarrow> string \<Rightarrow> string option \<Rightarrow> http_error + AnalyzeImageResponse" where
  "analyze_image G clock image_b64 mimeType =
     (case bind (get_gemini_service G) (\<lambda>gemini. gemini_analyze_image G 0 image_b64 mimeType) of
        Inr result \<Rightarrow>
          Inr \<lparr>air_success = True, air_questions = questions result, air_error = None,
               air_processingTimeMs = Some (trunc ((clock 1 - clock 0) * 1000))\<rparr>
      | Inl e \<Rightarrow>
          if is_ValueError e then Inl (HTTPException 400 (str_exc e))
          else Inr \<lparr>air_success = False, air_questions = [], air_error = Some (str_exc e),
                    air_processingTimeMs = None\<rparr>)"

section \<open>More strings\<close>

text \<open>\<open>str.lower()\<close> on the ASCII letters, \<open>str.endswith\<close>, and \<open>str(n)\<close> of an int.\<close>

definition lower_char :: "char \<Rightarrow> char" where
  "lower_char c =
     (case map_of (zip ''ABCDEFGHIJKLMNOPQRSTUVWXYZ'' ''abcdefghijklmnopqrstuvwxyz'') c of
        Some d \<Rightarrow> d
      | None \<Rightarrow> c)"

definition lower :: "string \<Rightarrow> string" where
  "lower s = map lower_char s"

definition endswith :: "string \<Rightarrow> string \<Rightarrow> bool" where
  "endswith s ending = (length ending \<le> length s \<and> drop (length s - length ending) s = ending)"

function str_nat :: "nat \<Rightarrow> string" where
  "str_nat n = (if n < 10 then [''0123456789'' ! n] else str_nat (n div 10) @ [''0123456789'' ! (n mod 10)])"
  by pat_completeness auto
termination
  by (relation "measure (\<lambda>n. n)") auto

declare str_nat.simps [simp del]

definition str_int :: "int \<Rightarrow> string" where
  "str_int i = (if i < 0 then ''-'' @ str_nat (nat (- i)) else str_nat (nat i))"

section \<open>Page renderer (services/pdf.py)\<close>

text \<open>
  The document library is a parameter; a document is the list of its pages.
  \<^item> \<open>fitz_open\<close>: \<open>fitz.open(stream=pdf_bytes, filetype="pdf")\<close>, which raises on bytes that
    are not a document;
  \<^item> \<open>render_page\<close>: for the resolution \<open>dpi\<close> of the service (zoom \<open>dpi / 72\<close>) and a page,
    the base64 text of the PNG of the page (\<open>get_pixmap\<close>, \<open>tobytes\<close>, \<open>b64encode\<close>), or
    the exception one of them raises;
  \<^item> \<open>negative_index\<close>: \<open>doc[i]\<close> for a negative \<open>i\<close>.
  What the service does to the outside is recorded as a trace of events.
\<close>

record 'page pdflib =
  fitz_open :: "string \<Rightarrow> error + 'page list"
  render_page :: "int \<Rightarrow> 'page \<Rightarrow> error + string"
  negative_index :: "'page list \<Rightarrow> int \<Rightarrow> error + 'page"

datatype event =
  FileRead | PdfOpen | PageRender nat | ProgressCall nat nat | PdfClose | ModelCall nat

definition default_dpi :: int where
  "default_dpi = 200"

text \<open>The loop of \<open>pdf_to_images\<close> over \<open>range(total_pages)\<close>. The progress callback, when
  there is one, returns \<open>None\<close> or the exception it raises.\<close>

fun pages_loop ::
  "'page pdflib \<Rightarrow> int \<Rightarrow> (nat \<Rightarrow> nat \<Rightarrow> error option) option \<Rightarrow> 'page list \<Rightarrow> nat \<Rightarrow>
   nat list \<Rightarrow> string list \<Rightarrow> event list \<Rightarrow> (error + string list) \<times> event list" where
  "pages_loop P dpi on_progress doc total_pages [] images tr = (Inr images, tr)"
| "pages_loop P dpi on_progress doc total_pages (page_num # rest) images tr =
     (if page_num < length doc then
        (case render_page P dpi (doc ! page_num) of
           Inl e \<Rightarrow> (Inl e, tr @ [PageRender page_num])
         | Inr base64_str \<Rightarrow>
             (case on_progress of
                None \<Rightarrow>
                  pages_loop P dpi on_progress doc total_pages rest
                    (images @ [''data:image/png;base64,'' @ base64_str])
                    (tr @ [PageRender page_num])
              | Some callback \<Rightarrow>
                  (case callback (page_num + 1) total_pages of
                     Some e \<Rightarrow>
                       (Inl e, tr @ [PageRender page_num, ProgressCall (page_num + 1) total_pages])
                   | None \<Rightarrow>
                       pages_loop P dpi on_progress doc total_pages rest
                         (images @ [''data:image/png;base64,'' @ base64_str])
                         (tr @ [PageRender page_num, ProgressCall (page_num + 1) total_pages]))))
      else (Inl (Exc IndexError ''page not in document''), tr))"

text \<open>\<open>pdf_to_images\<close>: the document is closed on every path out of the loop.\<close>

definition pdf_to_images ::
  "'page pdflib \<Rightarrow> int \<Rightarrow> string \<Rightarrow> (nat \<Rightarrow> nat \<Rightarrow> error option) option \<Rightarrow>
   (error + string list) \<times> event list" where
  "pdf_to_images P dpi pdf_bytes on_progress =
     (case fitz_open P pdf_bytes of
        Inl e \<Rightarrow> (Inl e, [PdfOpen])
      | Inr doc \<Rightarrow>
          (case pages_loop P dpi on_progress doc (length doc) [0..<length doc] [] [PdfOpen] of
             (r, tr) \<Rightarrow> (r, tr @ [PdfClose])))"

text \<open>\<open>pdf_to_single_image\<close> (its result only).\<close>

definition pdf_to_single_image :: "'page pdflib \<Rightarrow> int \<Rightarrow> string \<Rightarrow> int \<Rightarrow> error + string" where
  "pdf_to_single_image P dpi pdf_bytes page_num =
     bind (fitz_open P pdf_bytes) (\<lambda>doc.
       if int (length doc) \<le> page_num
       then Inl (Exc ValueError
              (''Page '' @ str_int page_num @ '' does not exist (PDF has ''
                 @ str_int (int (length doc)) @ '' pages)''))
       else
         bind (if page_num < 0 then negative_index P doc page_num
               else Inr (doc ! nat page_num)) (\<lambda>page.
         bind (render_page P dpi page) (\<lambda>base64_str.
           Inr (''data:image/png;base64,'' @ base64_str))))"

section \<open>Document analysis endpoint (routers/analyze.py, \<open>analyze_pdf\<close>)\<close>

record PDFAnalysisResponse =
  pdf_success :: bool
  pdf_taskId :: string
  pdf_pages :: int
  pdf_allQuestions :: "QuestionSegment list"
  pdf_pageResults :: "AnalysisResult list"
  pdf_error :: "string option"
  pdf_processingTimeMs :: "int option"

text \<open>The upload: its file name, and what \<open>await file.read()\<close> gives.\<close>

record UploadFile =
  filename :: string
  file_read :: "error + string"

text \<open>Lines 102 to 106: the questions of the page are updated in place, the \<open>j\<close>-th from
  the \<open>j\<close>-th cropped segment.\<close>

fun attach_loop ::
  "string \<Rightarrow> CroppedSegment list \<Rightarrow> nat \<Rightarrow> QuestionSegment list \<Rightarrow> QuestionSegment list" where
  "attach_loop page_image cropped j [] = []"
| "attach_loop page_image cropped j (q # rest) =
     (if j < length cropped
      then q\<lparr>qs_cropUrl := Some (cs_cropUrl (cropped ! j)),
             qs_sourceImageUrl := Some page_image\<rparr>
      else q) # attach_loop page_image cropped (Suc j) rest"

text \<open>Lines 95 to 106, for page \<open>i\<close>: segment, then crop when there is a question.\<close>

definition analyze_page ::
  "genai \<Rightarrow> 'img imaging \<Rightarrow> nat \<Rightarrow> string \<Rightarrow> error + AnalysisResult" where
  "analyze_page G L i page_image =
     bind (gemini_analyze_image G i page_image (Some ''image/png'')) (\<lambda>result.
       if questions result \<noteq> []
       then bind (extract_crops L default_padding page_image (questions result)) (\<lambda>cropped.
              Inr (result\<lparr>questions := attach_loop page_image cropped 0 (questions result)\<rparr>))
       else Inr result)"

text \<open>The loop over \<open>enumerate(page_images)\<close>.\<close>

fun analyze_pages ::
  "genai \<Rightarrow> 'img imaging \<Rightarrow> (nat \<times> string) list \<Rightarrow> QuestionSegment list \<Rightarrow>
   AnalysisResult list \<Rightarrow> event list \<Rightarrow>
   (error + QuestionSegment list \<times> AnalysisResult list) \<times> event list" where
  "analyze_pages G L [] all_questions page_results tr = (Inr (all_questions, page_results), tr)"
| "analyze_pages G L ((i, page_image) # rest) all_questions page_results tr =
     (case analyze_page G L i page_image of
        Inl e \<Rightarrow> (Inl e, tr @ [ModelCall i])
      | Inr result \<Rightarrow>
          analyze_pages G L rest (all_questions @ questions result) (page_results @ [result])
            (tr @ [ModelCall i]))"

text \<open>The \<open>try\<close> block of \<open>analyze_pdf\<close>, up to the loop: the number of pages, all the
  questions and the page results.\<close>

definition analyze_pdf_body ::
  "'page pdflib \<Rightarrow> genai \<Rightarrow> 'img imaging \<Rightarrow> UploadFile \<Rightarrow>
   (error + nat \<times> QuestionSegment list \<times> AnalysisResult list) \<times> event list" where
  "analyze_pdf_body P G L file =
     (case file_read file of
        Inl e \<Rightarrow> (Inl e, [FileRead])
      | Inr pdf_bytes \<Rightarrow>
          (case get_gemini_service G of
             Inl e \<Rightarrow> (Inl e, [FileRead])
           | Inr gemini \<Rightarrow>
               (case pdf_to_images P default_dpi pdf_bytes None of
                  (Inl e, tr) \<Rightarrow> (Inl e, FileRead # tr)
                | (Inr page_images, tr) \<Rightarrow>
                    (case analyze_pages G L (enumerate 0 page_images) [] [] (FileRead # tr) of
                       (Inl e, tr') \<Rightarrow> (Inl e, tr')
                     | (Inr (all_questions, page_results), tr') \<Rightarrow>
                         (Inr (length page_images, all_questions, page_results), tr')))))"

text \<open>\<open>POST /api/analyze-pdf\<close>: the file name check is outside the \<open>try\<close>; inside it every
  exception is caught.\<close>

definition analyze_pdf ::
  "'page pdflib \<Rightarrow> genai \<Rightarrow> 'img imaging \<Rightarrow> (nat \<Rightarrow> rat) \<Rightarrow> UploadFile \<Rightarrow>
   (http_error + PDFAnalysisResponse) \<times> event list" where
  "analyze_pdf P G L clock file =
     (if \<not> endswith (lower (filename file)) ''.pdf''
      then (Inl (HTTPException 400 ''File must be a PDF''), [])
      else
        (case analyze_pdf_body P G L file of
           (Inr (total_pages, all_questions, page_results), tr) \<Rightarrow>
             (Inr \<lparr>pdf_success = True,
                   pdf_taskId = ''pdf_'' @ str_int (trunc (clock 2)),
                   pdf_pages = int total_pages,
                   pdf_allQuestions = all_questions,
                   pdf_pageResults = page_results,
                   pdf_error = None,
                   pdf_processingTimeMs = Some (trunc ((clock 1 - clock 0) * 1000))\<rparr>, tr)
         | (Inl e, tr) \<Rightarrow>
             (Inr \<lparr>pdf_success = False, pdf_taskId = [], pdf_pages = 0,
                   pdf_allQuestions = [], pdf_pageResults = [],
                   pdf_error = Some (str_exc e), pdf_processingTimeMs = None\<rparr>, tr)))"

section \<open>An instance of the library\<close>

text \<open>
  A small instance of the library interface, on which the model is evaluated at concrete
  inputs: an image is its size, every non-empty payload decodes to a 100 by 100 image,
  float rounding is exact and every canvas encodes to the same text.
\<close>

definition toy_imaging :: "(int \<times> int) imaging" where
  "toy_imaging =
     \<lparr>fl = (\<lambda>r. r),
      image_open = (\<lambda>s. if s = [] then Inl (Exc OtherException ''cannot identify image file'')
                         else Inr (100, 100)),
      image_size = (\<lambda>im. im),
      render_png = (\<lambda>im box sz. Inr ''iVBORw0KGgo='')\<rparr>"

text \<open>An instance of the segmentation client's parameters: a configured key, a
  \<open>json.loads\<close> that knows two texts, a strict validation, and an external model whose
  \<open>n\<close>-th reply is \<open>reply n\<close>; and a clock.\<close>

definition one_question_text :: string where
  "one_question_text = ''{'' @ [CHR 0x22] @ ''questions'' @ [CHR 0x22] @ '': [{}]}''"

definition toy_loads :: "string \<Rightarrow> error + json" where
  "toy_loads s =
     (if s = ''{}'' then Inr (JObj [])
      else if s = one_question_text then Inr (JObj [(''questions'', JArr [JObj []])])
      else Inl (Exc JSONDecodeError ''Expecting value: line 1 column 1 (char 0)''))"

definition toy_genai :: "(nat \<Rightarrow> string option) \<Rightarrow> genai" where
  "toy_genai reply =
     \<lparr>api_key = Some ''key'',
      b64decode = (\<lambda>s. Inr s),
      generate_content = (\<lambda>n data mime. Inr (reply n)),
      json_loads = toy_loads,
      str_json = (\<lambda>v. ''None''),
      lax_str = (\<lambda>v. Inl (Exc ValueError ''Input should be a valid string'')),
      lax_float = (\<lambda>v. Inl (Exc ValueError ''Input should be a valid number''))\<rparr>"

definition no_reply :: "nat \<Rightarrow> string option" where
  "no_reply n = None"

definition garbled_reply :: "nat \<Rightarrow> string option" where
  "garbled_reply n = Some ''  I found 3 questions ''"

definition toy_clock :: "nat \<Rightarrow> rat" where
  "toy_clock k = 1700000000 + of_nat k / 2"

text \<open>The bounding box of the whole image.\<close>

definition whole_image :: BoundingBox where
  "whole_image = \<lparr>ymin = Finite 0, xmin = Finite 0, ymax = Finite 1000, xmax = Finite 1000\<rparr>"

text \<open>An instance of the document library: the bytes \<open>%PDF-3\<close> open as a document of
  three pages, a page renders to its own name; a progress callback that never raises;
  an upload of those bytes under a given file name.\<close>

definition toy_pdflib :: "string pdflib" where
  "toy_pdflib =
     \<lparr>fitz_open = (\<lambda>b. if b = ''%PDF-3'' then Inr [''p1'', ''p2'', ''p3'']
                        else Inl (Exc OtherException ''Failed to open stream'')),
      render_page = (\<lambda>dpi p. Inr p),
      negative_index = (\<lambda>doc i. Inl (Exc IndexError ''page not in document''))\<rparr>"

definition count_cb :: "nat \<Rightarrow> nat \<Rightarrow> error option" where
  "count_cb k n = None"

definition toy_upload :: "string \<Rightarrow> UploadFile" where
  "toy_upload name = \<lparr>filename = name, file_read = Inr ''%PDF-3''\<rparr>"

section \<open>Auxiliary definitions for the proofs\<close>

text \<open>The pixel coordinate of a finite normalized coordinate \<open>r\<close> on an axis of \<open>n\<close>
  pixels: \<open>py_int (scale rnd (Finite r) n) = Inr (px rnd r n)\<close>.\<close>

definition px :: "(rat \<Rightarrow> rat) \<Rightarrow> rat \<Rightarrow> int \<Rightarrow> int" where
  "px rnd r n = trunc (rnd (rnd (r / 1000) * of_int n))"

text \<open>A clamped rectangle inverts when its right edge is left of its left edge or its
  lower edge is above its upper edge; a bounding box is degenerate when it has no height
  or no width.\<close>

definition inverts :: "int \<times> int \<times> int \<times> int \<Rightarrow> bool" where
  "inverts box = (case box of (x1, y1, x2, y2) \<Rightarrow> x2 < x1 \<or> y2 < y1)"

definition degenerate :: "BoundingBox \<Rightarrow> bool" where
  "degenerate bbox = (ymin bbox = ymax bbox \<or> xmin bbox = xmax bbox)"

text \<open>A question segment for the concrete evaluations.\<close>

definition seg0 :: "BoundingBox \<Rightarrow> QuestionSegment" where
  "seg0 bbox = \<lparr>qs_id = ''1'', qs_boundingBox = bbox, qs_text = ''Q'', qs_cropUrl = None,
     qs_imageUrl = None, qs_sourceImageUrl = None, qs_subject = Some ''Math'',
     qs_chapter = None, qs_correctAnswer = None\<rparr>"

text \<open>The events of one page of \<open>pdf_to_images\<close>: the rendering, then the call of the
  progress callback with the number of pages done and the total.\<close>

definition page_events :: "bool \<Rightarrow> nat \<Rightarrow> nat \<Rightarrow> event list" where
  "page_events with_callback total_pages page_num =
     (if with_callback then [PageRender page_num, ProgressCall (page_num + 1) total_pages]
      else [PageRender page_num])"

text \<open>The specification's words for the file name check, "a \<open>.pdf\<close> filename suffix
  (case-insensitive)": one of the eight spellings of \<open>.pdf\<close> is a suffix of the name.\<close>

definition pdf_exts :: "string list" where
  "pdf_exts = [''.pdf'', ''.pdF'', ''.pDf'', ''.pDF'', ''.Pdf'', ''.PdF'', ''.PDf'', ''.PDF'']"

definition has_pdf_suffix :: "string \<Rightarrow> bool" where
  "has_pdf_suffix name = (\<exists>ext \<in> set pdf_exts. suffix ext name)"

text \<open>Two bounding boxes for the concrete evaluations: one whose rectangle inverts on
  a 100 by 100 image, and a degenerate one.\<close>

definition inverted_bbox :: BoundingBox where
  "inverted_bbox = \<lparr>ymin = Finite 0, xmin = Finite 900, ymax = Finite 1000, xmax = Finite 100\<rparr>"

definition degenerate_bbox :: BoundingBox where
  "degenerate_bbox = \<lparr>ymin = Finite 500, xmin = Finite 500, ymax = Finite 500, xmax = Finite 500\<rparr>"

text \<open>The response built by the \<open>except Exception\<close> handler of \<open>analyze_pdf\<close> (lines 123
  to 131) from the exception \<open>e\<close>.\<close>

definition failure_response :: "error \<Rightarrow> PDFAnalysisResponse" where
  "failure_response e =
     \<lparr>pdf_success = False, pdf_taskId = [], pdf_pages = 0, pdf_allQuestions = [],
      pdf_pageResults = [], pdf_error = Some (str_exc e), pdf_processingTimeMs = None\<rparr>"

text \<open>An external model that finds one question on every page but the second, where it
  finds none.\<close>

definition three_replies :: "nat \<Rightarrow> string option" where
  "three_replies n = (if n = 1 then Some ''{}'' else Some one_question_text)"

text \<open>The question of a page of the instance after cropping, the response for the
  three-page upload and the trace of that request.\<close>

definition toy_question :: "string \<Rightarrow> QuestionSegment" where
  "toy_question page_image =
     \<lparr>qs_id = [], qs_boundingBox = whole_image, qs_text = [],
      qs_cropUrl = Some ''data:image/png;base64,iVBORw0KGgo='', qs_imageUrl = None,
      qs_sourceImageUrl = Some page_image, qs_subject = None, qs_chapter = None,
      qs_correctAnswer = None\<rparr>"

definition toy_response :: PDFAnalysisResponse where
  "toy_response =
     \<lparr>pdf_success = True, pdf_taskId = ''pdf_1700000001'', pdf_pages = 3,
      pdf_allQuestions = [toy_question ''data:image/png;base64,p1'',
                          toy_question ''data:image/png;base64,p3''],
      pdf_pageResults = [\<lparr>questions = [toy_question ''data:image/png;base64,p1'']\<rparr>,
                         \<lparr>questions = []\<rparr>,
                         \<lparr>questions = [toy_question ''data:image/png;base64,p3'']\<rparr>],
      pdf_error = None, pdf_processingTimeMs = Some 500\<rparr>"

definition toy_trace :: "event list" where
  "toy_trace = [FileRead, PdfOpen, PageRender 0, PageRender 1, PageRender 2, PdfClose,
                ModelCall 0, ModelCall 1, ModelCall 2]"

section \<open>Basic facts\<close>

lemma bind_Inr [simp]: "bind (Inr x) f = f x"
  by (simp add: bind_def)

lemma bind_Inl [simp]: "bind (Inl e) f = Inl e"
  by (simp add: bind_def)

lemma trunc_mono: "a \<le> b \<Longrightarrow> trunc a \<le> trunc b"
proof -
  assume ab: "a \<le> b"
  show ?thesis
  proof (cases "0 \<le> a")
    case True
    with ab show ?thesis by (simp add: trunc_def floor_mono)
  next
    case False
    show ?thesis
    proof (cases "0 \<le> b")
      case True
      have "\<lceil>a\<rceil> \<le> 0" using False by (simp add: ceiling_le_iff)
      moreover have "0 \<le> \<lfloor>b\<rfloor>" using True by simp
      ultimately have "\<lceil>a\<rceil> \<le> \<lfloor>b\<rfloor>" by linarith
      then show ?thesis using False True by (simp add: trunc_def)
    next
      case b: False
      with False ab show ?thesis by (simp add: trunc_def ceiling_mono)
    qed
  qed
qed

lemma trunc_of_int [simp]: "trunc (of_int n) = n"
  by (simp add: trunc_def)

lemma px_mono:
  assumes "mono rnd" "0 \<le> n" "a \<le> b"
  shows "px rnd a n \<le> px rnd b n"
proof -
  have "rnd (a / 1000) \<le> rnd (b / 1000)"
    using assms by (intro monoD[OF assms(1)]) (simp add: divide_right_mono)
  then have "rnd (a / 1000) * of_int n \<le> rnd (b / 1000) * of_int n"
    using assms(2) by (simp add: mult_right_mono)
  then show ?thesis
    unfolding px_def by (intro trunc_mono monoD[OF assms(1)])
qed

lemma px_zero: "rnd 0 = 0 \<Longrightarrow> px rnd 0 n = 0"
  by (simp add: px_def trunc_def)

lemma px_full: "rnd 1 = 1 \<Longrightarrow> rnd (of_int n) = of_int n \<Longrightarrow> px rnd 1000 n = n"
  by (simp add: px_def)

section \<open>The crop engine\<close>

text \<open>
  Claim C1. For a source image of positive size \<open>W\<close> by \<open>H\<close> and a bounding box with
  \<open>0 \<le> xmin \<le> xmax \<le> 1000\<close> and \<open>0 \<le> ymin \<le> ymax \<le> 1000\<close>, the crop engine scales each
  coordinate by \<open>W/1000\<close> or \<open>H/1000\<close>, truncates it to an integer (\<open>x1\<close>, \<open>y1\<close>, \<open>x2\<close>,
  \<open>y2\<close>), pads by \<open>pad\<close> pixels and clamps; the canvas that is encoded as the artifact
  has width \<open>min W (x2 + pad) - max 0 (x1 - pad)\<close> and height
  \<open>min H (y2 + pad) - max 0 (y1 - pad)\<close>, both non-negative and within the image, so the
  library's size checks pass and the result is the data URL of that canvas. Float
  rounding is any monotone function that is exact on 0, 1, \<open>W\<close> and \<open>H\<close>. The witness is
  the box \<open>{ymin: 0, xmin: 0, ymax: 1000, xmax: 1000}\<close> on a 100 by 100 image with padding
  10: the canvas is 100 by 100.
\<close>

theorem crop_dimensions:
  assumes rnd: "mono rnd" "rnd 0 = 0" "rnd 1 = 1"
      "rnd (of_int W) = of_int W" "rnd (of_int H) = of_int H"
    and L: "fl L = rnd"
    and dims: "0 < W" "0 < H" and pad: "0 \<le> pad"
    and xs: "0 \<le> xa" "xa \<le> xb" "xb \<le> 1000"
    and ys: "0 \<le> ya" "ya \<le> yb" "yb \<le> 1000"
    and bbox: "bbox = \<lparr>ymin = Finite ya, xmin = Finite xa, ymax = Finite yb, xmax = Finite xb\<rparr>"
    and px: "x1 = trunc (rnd (rnd (xa / 1000) * of_int W))"
      "y1 = trunc (rnd (rnd (ya / 1000) * of_int H))"
      "x2 = trunc (rnd (rnd (xb / 1000) * of_int W))"
      "y2 = trunc (rnd (rnd (yb / 1000) * of_int H))"
    and cw: "cw = min W (x2 + pad) - max 0 (x1 - pad)"
    and ch: "ch = min H (y2 + pad) - max 0 (y1 - pad)"
    and box: "box = (max 0 (x1 - pad), max 0 (y1 - pad), min W (x2 + pad), min H (y2 + pad))"
  shows "crop_box rnd pad bbox W H = Inr box \<and> canvas_size box = (cw, ch) \<and>
         0 \<le> cw \<and> 0 \<le> ch \<and> cw \<le> W \<and> ch \<le> H \<and>
         crop_segment L pad img bbox W H =
           bind (render_png L img box (cw, ch)) (\<lambda>b. Inr (''data:image/png;base64,'' @ b))"
proof -
  have x: "x1 = px rnd xa W" "x2 = px rnd xb W" and y: "y1 = px rnd ya H" "y2 = px rnd yb H"
    using px by (simp_all add: px_def)
  have x12: "0 \<le> x1" "x1 \<le> x2" "x2 \<le> W"
    using px_mono[OF rnd(1), of W 0 xa] px_mono[OF rnd(1), of W xa xb]
      px_mono[OF rnd(1), of W xb 1000] px_zero[of rnd W] px_full[of rnd W] rnd
      dims xs x by simp_all
  have y12: "0 \<le> y1" "y1 \<le> y2" "y2 \<le> H"
    using px_mono[OF rnd(1), of H 0 ya] px_mono[OF rnd(1), of H ya yb]
      px_mono[OF rnd(1), of H yb 1000] px_zero[of rnd H] px_full[of rnd H] rnd
      dims ys y by simp_all
  have b: "crop_box rnd pad bbox W H = Inr box"
    by (simp add: crop_box_def bbox px box)
  have c: "canvas_size box = (cw, ch)"
    by (simp add: box cw ch)
  have n: "0 \<le> cw" "0 \<le> ch" "cw \<le> W" "ch \<le> H"
    using x12 y12 pad dims by (simp_all add: cw ch)
  have s: "crop_segment L pad img bbox W H =
           bind (render_png L img box (cw, ch)) (\<lambda>b. Inr (''data:image/png;base64,'' @ b))"
    using n by (simp add: crop_segment_def L b c)
  from b c n s show ?thesis by simp
qed

theorem crop_dimensions_witness:
  "crop_box (\<lambda>r. r) 10 \<lparr>ymin = Finite 0, xmin = Finite 0, ymax = Finite 1000, xmax = Finite 1000\<rparr>
     100 100 = Inr (0, 0, 100, 100) \<and>
   canvas_size (0, 0, 100, 100) = (100, 100) \<and>
   crop_segment toy_imaging 10 (100, 100)
     \<lparr>ymin = Finite 0, xmin = Finite 0, ymax = Finite 1000, xmax = Finite 1000\<rparr> 100 100
     = Inr ''data:image/png;base64,iVBORw0KGgo=''"
proof -
  have m: "mono (\<lambda>r::rat. r)" by (simp add: mono_def)
  have f: "fl toy_imaging = (\<lambda>r. r)" by (simp add: toy_imaging_def)
  have r: "render_png toy_imaging (100, 100) (0, 0, 100, 100) (100, 100) = Inr ''iVBORw0KGgo=''"
    by (simp add: toy_imaging_def)
  show ?thesis
    using crop_dimensions [where rnd = "\<lambda>r. r" and W = 100 and H = 100 and pad = 10
        and L = toy_imaging and img = "(100, 100)"
        and xa = 0 and xb = 1000 and ya = 0 and yb = 1000, OF m _ _ _ _ f] r
    by (simp add: trunc_def)
qed

lemma crop_loop_eq:
  "crop_loop L p img w h segs acc = acc @ map (crop_one L p img w h) segs"
  by (induction segs arbitrary: acc) simp_all

lemma extract_crops_decoded:
  "decode_image L b = Inr img \<Longrightarrow> image_size L img = (W, H) \<Longrightarrow>
   extract_crops L p b segs = Inr (map (crop_one L p img W H) segs)"
  by (simp add: extract_crops_def crop_loop_eq)

lemma extract_crops_undecoded:
  "decode_image L b = Inl e \<Longrightarrow> extract_crops L p b segs = Inl e"
  by (simp add: extract_crops_def)

lemma crop_one_frame:
  "cs_id (crop_one L p img W H s) = qs_id s"
  "cs_boundingBox (crop_one L p img W H s) = qs_boundingBox s"
  "cs_text (crop_one L p img W H s) = qs_text s"
  "cs_subject (crop_one L p img W H s) = qs_subject s"
  "cs_chapter (crop_one L p img W H s) = qs_chapter s"
  "cs_correctAnswer (crop_one L p img W H s) = qs_correctAnswer s"
  by (simp_all add: crop_one_def split: sum.splits)

lemma crop_one_url:
  "cs_cropUrl (crop_one L p img W H s) =
     (case crop_segment L p img (qs_boundingBox s) W H of Inr u \<Rightarrow> u | Inl e \<Rightarrow> '''')"
  by (simp add: crop_one_def split: sum.splits)

lemma crop_segment_inverts:
  "crop_box (fl L) p bbox W H = Inr box \<Longrightarrow> inverts box \<Longrightarrow>
   crop_segment L p img bbox W H = Inl (Exc ValueError ''Width and height must be >= 0'')"
  by (cases box) (auto simp: crop_segment_def inverts_def)

lemma toy_decode: "decode_image toy_imaging ''AAAA'' = Inr (100, 100)"
  by (simp add: decode_image_def toy_imaging_def strip_data_url_def split_def)

lemma toy_decode_empty:
  "decode_image toy_imaging '''' = Inl (Exc OtherException ''cannot identify image file'')"
  by (simp add: decode_image_def toy_imaging_def strip_data_url_def split_def)

lemma toy_size: "image_size toy_imaging (100, 100) = (100, 100)"
  by (simp add: toy_imaging_def)

lemma crop_image_decoded:
  "decode_image L b = Inr img \<Longrightarrow> image_size L img = (W, H) \<Longrightarrow>
   crop_image L b segs =
     \<lparr>cr_success = True, cr_segments = map (crop_one L default_padding img W H) segs,
      cr_error = None\<rparr>"
  by (simp add: crop_image_def extract_crops_decoded)

text \<open>
  Claim C3. If decoding the source image fails, \<open>extract_crops\<close> fails with that error
  (the whole batch fails). If the image decodes, \<open>extract_crops\<close> returns exactly one
  output segment per input segment, and a segment whose crop raises is still in the
  output, at its position, with \<open>cropUrl = ""\<close>.
\<close>

theorem extract_crops_batch:
  "(\<forall>e. decode_image L b = Inl e \<longrightarrow> extract_crops L p b segs = Inl e) \<and>
   (\<forall>img W H. decode_image L b = Inr img \<and> image_size L img = (W, H) \<longrightarrow>
      (\<exists>out. extract_crops L p b segs = Inr out \<and> length out = length segs \<and>
         (\<forall>i<length segs. \<forall>e.
            crop_segment L p img (qs_boundingBox (segs ! i)) W H = Inl e \<longrightarrow>
            cs_id (out ! i) = qs_id (segs ! i) \<and> cs_cropUrl (out ! i) = '''')))"
  by (auto simp: extract_crops_undecoded extract_crops_decoded crop_one_frame crop_one_url)

theorem extract_crops_batch_witness:
  "extract_crops toy_imaging 10 '''' [seg0 \<lparr>ymin = Finite 0, xmin = Finite 900, ymax = Finite 1000, xmax = Finite 100\<rparr>]
     = Inl (Exc OtherException ''cannot identify image file'') \<and>
   (\<exists>out. extract_crops toy_imaging 10 ''AAAA''
        [seg0 \<lparr>ymin = Finite 0, xmin = Finite 900, ymax = Finite 1000, xmax = Finite 100\<rparr>] = Inr out \<and>
      length out = 1 \<and> cs_id (out ! 0) = ''1'' \<and> cs_cropUrl (out ! 0) = '''')"
proof -
  let ?bb = "\<lparr>ymin = Finite 0, xmin = Finite 900, ymax = Finite 1000, xmax = Finite 100\<rparr>"
  have c: "crop_segment toy_imaging 10 (100, 100) ?bb 100 100
             = Inl (Exc ValueError ''Width and height must be >= 0'')"
    by (simp add: crop_segment_def crop_box_def toy_imaging_def trunc_def)
  show ?thesis
    using extract_crops_batch [of toy_imaging "''''" 10 "[seg0 ?bb]"]
      extract_crops_batch [of toy_imaging "''AAAA''" 10 "[seg0 ?bb]"]
      toy_decode toy_decode_empty toy_size c
    by (simp add: seg0_def)
qed

lemma px_bounds:
  assumes "mono rnd" "rnd 0 = 0" "rnd 1 = 1" "rnd (of_int n) = of_int n"
    and "0 < n" "0 \<le> a" "a \<le> b" "b \<le> 1000"
  shows "0 \<le> px rnd a n" "px rnd a n \<le> px rnd b n" "px rnd b n \<le> n"
  using px_mono[OF assms(1), of n 0 a] px_mono[OF assms(1), of n a b]
    px_mono[OF assms(1), of n b 1000] px_zero[of rnd n] px_full[of rnd n] assms
  by simp_all

lemma crop_box_finite:
  "crop_box rnd p \<lparr>ymin = Finite ya, xmin = Finite xa, ymax = Finite yb, xmax = Finite xb\<rparr> W H =
     Inr (max 0 (px rnd xa W - p), max 0 (px rnd ya H - p),
          min W (px rnd xb W + p), min H (px rnd yb H + p))"
  by (simp add: crop_box_def px_def)

lemma crop_segment_valid:
  "crop_box (fl L) p bbox W H = Inr box \<Longrightarrow> \<not> inverts box \<Longrightarrow>
   crop_segment L p img bbox W H =
     bind (render_png L img box (canvas_size box)) (\<lambda>s. Inr (''data:image/png;base64,'' @ s))"
  by (cases box) (auto simp: crop_segment_def inverts_def)

lemma single_crop_inverts:
  "decode_image L b = Inr img \<Longrightarrow> image_size L img = (W, H) \<Longrightarrow>
   crop_box (fl L) p bbox W H = Inr box \<Longrightarrow> inverts box \<Longrightarrow>
   extract_single_crop L p b bbox = Inl (Exc ValueError ''Width and height must be >= 0'')"
  by (simp add: extract_single_crop_def crop_segment_inverts)

text \<open>
  Claim C4, as stated, fails: for a bounding box whose padded, clamped rectangle inverts
  (here \<open>xmin = 900\<close>, \<open>xmax = 100\<close> on a 100 by 100 image: the rectangle is
  \<open>(80, 0, 20, 100)\<close>), the crop engine does error: \<open>_crop_segment\<close> raises \<open>ValueError\<close>.
  The batch endpoint catches it and gives the segment \<open>cropUrl = ""\<close>, the marker of a
  failed crop, not the artifact of an empty region.
\<close>

theorem inverted_box_crop_raises:
  "crop_box (fl toy_imaging) default_padding inverted_bbox 100 100 = Inr (80, 0, 20, 100) \<and>
   inverts (80, 0, 20, 100) \<and>
   crop_segment toy_imaging default_padding (100, 100) inverted_bbox 100 100
     = Inl (Exc ValueError ''Width and height must be >= 0'') \<and>
   crop_image toy_imaging ''AAAA'' [seg0 inverted_bbox]
     = \<lparr>cr_success = True,
        cr_segments = [\<lparr>cs_id = ''1'', cs_boundingBox = inverted_bbox, cs_text = ''Q'',
                        cs_cropUrl = '''', cs_subject = Some ''Math'', cs_chapter = None,
                        cs_correctAnswer = None\<rparr>],
        cr_error = None\<rparr>"
proof -
  have b: "crop_box (fl toy_imaging) default_padding inverted_bbox 100 100 = Inr (80, 0, 20, 100)"
    by (simp add: crop_box_def inverted_bbox_def toy_imaging_def trunc_def default_padding_def)
  have i: "inverts (80, 0, 20, 100)" by (simp add: inverts_def)
  have c: "crop_segment toy_imaging default_padding (100, 100) inverted_bbox 100 100
     = Inl (Exc ValueError ''Width and height must be >= 0'')"
    by (simp add: crop_segment_def b)
  have e: "crop_image toy_imaging ''AAAA'' [seg0 inverted_bbox]
     = \<lparr>cr_success = True,
        cr_segments = [\<lparr>cs_id = ''1'', cs_boundingBox = inverted_bbox, cs_text = ''Q'',
                        cs_cropUrl = '''', cs_subject = Some ''Math'', cs_chapter = None,
                        cs_correctAnswer = None\<rparr>],
        cr_error = None\<rparr>"
    by (simp add: crop_image_decoded[OF toy_decode toy_size] crop_one_def c seg0_def)
  from b i c e show ?thesis by blast
qed

text \<open>
  Claim C4, amended. On a decodable image, for the segment at index \<open>i\<close> of a batch:
  \<^item> if its padded, clamped rectangle inverts, the crop engine fails (\<open>_crop_segment\<close>
    raises \<open>ValueError\<close>, and the single-crop operation propagates it), and the batch
    endpoint isolates the failure: the response has \<open>success = True\<close> and no error, one
    segment per input segment, and this segment is there with its id and boundingBox and
    with \<open>cropUrl = ""\<close>;
  \<^item> if its box is degenerate and lies on the 0 to 1000 scale (the image has positive
    size, the padding is 10, float rounding is monotone and exact on 0, 1, \<open>W\<close> and \<open>H\<close>),
    the padded, clamped rectangle does not invert and is not empty: both sides are
    positive and a degenerate side is at most 20 pixels; the batch endpoint succeeds and
    gives the segment the data URL of that canvas, or \<open>""\<close> when the encoding raises.
\<close>

theorem crop_image_isolates_inverted_box:
  assumes dec: "decode_image L b = Inr img" and size: "image_size L img = (W, H)"
    and i: "i < length segs" and bbox: "bbox = qs_boundingBox (segs ! i)"
    and out: "out = cr_segments (crop_image L b segs)"
  shows "(\<forall>box. crop_box (fl L) default_padding bbox W H = Inr box \<and> inverts box \<longrightarrow>
            crop_segment L default_padding img bbox W H
              = Inl (Exc ValueError ''Width and height must be >= 0'') \<and>
            extract_single_crop L default_padding b bbox
              = Inl (Exc ValueError ''Width and height must be >= 0'') \<and>
            cr_success (crop_image L b segs) \<and> cr_error (crop_image L b segs) = None \<and>
            length out = length segs \<and> cs_id (out ! i) = qs_id (segs ! i) \<and>
            cs_boundingBox (out ! i) = bbox \<and> cs_cropUrl (out ! i) = '''') \<and>
         (degenerate bbox \<and>
          bbox = \<lparr>ymin = Finite ya, xmin = Finite xa, ymax = Finite yb, xmax = Finite xb\<rparr> \<and>
          0 \<le> xa \<and> xa \<le> xb \<and> xb \<le> 1000 \<and> 0 \<le> ya \<and> ya \<le> yb \<and> yb \<le> 1000 \<and>
          0 < W \<and> 0 < H \<and> mono (fl L) \<and> fl L 0 = 0 \<and> fl L 1 = 1 \<and>
          fl L (of_int W) = of_int W \<and> fl L (of_int H) = of_int H \<longrightarrow>
            (\<exists>box. crop_box (fl L) default_padding bbox W H = Inr box \<and> \<not> inverts box \<and>
               0 < fst (canvas_size box) \<and> 0 < snd (canvas_size box) \<and>
               min (fst (canvas_size box)) (snd (canvas_size box)) \<le> 2 * default_padding \<and>
               cr_success (crop_image L b segs) \<and> length out = length segs \<and>
               cs_id (out ! i) = qs_id (segs ! i) \<and>
               cs_cropUrl (out ! i) =
                 (case render_png L img box (canvas_size box) of
                    Inr png \<Rightarrow> ''data:image/png;base64,'' @ png
                  | Inl e \<Rightarrow> '''')))"
    (is "?inverted \<and> ?thin")
proof (rule conjI)
  show ?inverted
  proof (intro allI impI)
  fix box
  assume a: "crop_box (fl L) default_padding bbox W H = Inr box \<and> inverts box"
  have r: "out = map (crop_one L default_padding img W H) segs"
    using crop_image_decoded[OF dec size] out by simp
  have c: "crop_segment L default_padding img bbox W H
              = Inl (Exc ValueError ''Width and height must be >= 0'')"
    using a by (simp add: crop_segment_inverts)
  have s: "extract_single_crop L default_padding b bbox
              = Inl (Exc ValueError ''Width and height must be >= 0'')"
    using a single_crop_inverts[OF dec size] by blast
  have u: "cs_cropUrl (out ! i) = ''''"
    using i c by (simp add: r crop_one_url bbox)
  show "crop_segment L default_padding img bbox W H
              = Inl (Exc ValueError ''Width and height must be >= 0'') \<and>
            extract_single_crop L default_padding b bbox
              = Inl (Exc ValueError ''Width and height must be >= 0'') \<and>
            cr_success (crop_image L b segs) \<and> cr_error (crop_image L b segs) = None \<and>
            length out = length segs \<and> cs_id (out ! i) = qs_id (segs ! i) \<and>
            cs_boundingBox (out ! i) = bbox \<and> cs_cropUrl (out ! i) = ''''"
    using c s u i by (simp add: crop_image_decoded[OF dec size] r crop_one_frame bbox)
  qed
next
  show ?thin
  proof (rule impI)
  assume a: "degenerate bbox \<and>
          bbox = \<lparr>ymin = Finite ya, xmin = Finite xa, ymax = Finite yb, xmax = Finite xb\<rparr> \<and>
          0 \<le> xa \<and> xa \<le> xb \<and> xb \<le> 1000 \<and> 0 \<le> ya \<and> ya \<le> yb \<and> yb \<le> 1000 \<and>
          0 < W \<and> 0 < H \<and> mono (fl L) \<and> fl L 0 = 0 \<and> fl L 1 = 1 \<and>
          fl L (of_int W) = of_int W \<and> fl L (of_int H) = of_int H"
  define x1 where "x1 = px (fl L) xa W"
  define x2 where "x2 = px (fl L) xb W"
  define y1 where "y1 = px (fl L) ya H"
  define y2 where "y2 = px (fl L) yb H"
  define box where "box = (max 0 (x1 - default_padding), max 0 (y1 - default_padding),
                           min W (x2 + default_padding), min H (y2 + default_padding))"
  have xb: "0 \<le> x1" "x1 \<le> x2" "x2 \<le> W"
    using a px_bounds[of "fl L" W xa xb] by (simp_all add: x1_def x2_def)
  have yb: "0 \<le> y1" "y1 \<le> y2" "y2 \<le> H"
    using a px_bounds[of "fl L" H ya yb] by (simp_all add: y1_def y2_def)
  have d: "x1 = x2 \<or> y1 = y2"
    using a by (auto simp: degenerate_def x1_def x2_def y1_def y2_def)
  have cb: "crop_box (fl L) default_padding bbox W H = Inr box"
    using a by (simp add: crop_box_finite box_def x1_def x2_def y1_def y2_def)
  have wh: "0 < W" "0 < H" using a by simp_all
  have ni: "\<not> inverts box"
    using xb yb wh by (auto simp: inverts_def box_def default_padding_def)
  have pos: "0 < fst (canvas_size box)" "0 < snd (canvas_size box)"
    using xb yb wh by (auto simp: box_def default_padding_def)
  have thin: "min (fst (canvas_size box)) (snd (canvas_size box)) \<le> 2 * default_padding"
    using d xb yb by (auto simp: box_def default_padding_def)
  have r: "out = map (crop_one L default_padding img W H) segs"
    using crop_image_decoded[OF dec size] out by simp
  have u: "cs_cropUrl (out ! i) =
                 (case render_png L img box (canvas_size box) of
                    Inr png \<Rightarrow> ''data:image/png;base64,'' @ png
                  | Inl e \<Rightarrow> '''')"
    using i crop_segment_valid[OF cb ni, of img]
    by (simp add: r crop_one_url bbox split: sum.split)
  have rest: "cr_success (crop_image L b segs)" "length out = length segs"
    "cs_id (out ! i) = qs_id (segs ! i)"
    using i by (simp_all add: crop_image_decoded[OF dec size] r crop_one_frame)
  from cb ni pos thin u rest
  show "\<exists>box. crop_box (fl L) default_padding bbox W H = Inr box \<and> \<not> inverts box \<and>
               0 < fst (canvas_size box) \<and> 0 < snd (canvas_size box) \<and>
               min (fst (canvas_size box)) (snd (canvas_size box)) \<le> 2 * default_padding \<and>
               cr_success (crop_image L b segs) \<and> length out = length segs \<and>
               cs_id (out ! i) = qs_id (segs ! i) \<and>
               cs_cropUrl (out ! i) =
                 (case render_png L img box (canvas_size box) of
                    Inr png \<Rightarrow> ''data:image/png;base64,'' @ png
                  | Inl e \<Rightarrow> '''')"
    by (intro exI[of _ box] conjI)
  qed
qed

theorem crop_image_isolates_inverted_box_witness:
  "cs_cropUrl (cr_segments (crop_image toy_imaging ''AAAA''
       [seg0 inverted_bbox, seg0 degenerate_bbox]) ! 0) = '''' \<and>
   cs_cropUrl (cr_segments (crop_image toy_imaging ''AAAA''
       [seg0 inverted_bbox, seg0 degenerate_bbox]) ! 1) = ''data:image/png;base64,iVBORw0KGgo=''"
proof -
  let ?segs = "[seg0 inverted_bbox, seg0 degenerate_bbox]"
  let ?out = "cr_segments (crop_image toy_imaging ''AAAA'' ?segs)"
  have b: "crop_box (fl toy_imaging) default_padding inverted_bbox 100 100 = Inr (80, 0, 20, 100)"
    by (simp add: crop_box_def inverted_bbox_def toy_imaging_def trunc_def default_padding_def)
  have i: "inverts (80, 0, 20, 100)" by (simp add: inverts_def)
  have l0: "0 < length ?segs" and l1: "1 < length ?segs" by simp_all
  have q0: "inverted_bbox = qs_boundingBox (?segs ! 0)" by (simp add: seg0_def)
  have q1: "degenerate_bbox = qs_boundingBox (?segs ! 1)" by (simp add: seg0_def)
  note t0 = crop_image_isolates_inverted_box [OF toy_decode toy_size l0 q0 refl,
      THEN conjunct1, THEN spec, of "(80, 0, 20, 100)", THEN mp, OF conjI[OF b i]]
  from t0 have first: "cs_cropUrl (?out ! 0) = ''''"
    by (elim conjE)
  have p: "degenerate degenerate_bbox \<and>
          degenerate_bbox = \<lparr>ymin = Finite 500, xmin = Finite 500, ymax = Finite 500, xmax = Finite 500\<rparr> \<and>
          (0::rat) \<le> 500 \<and> (500::rat) \<le> 500 \<and> (500::rat) \<le> 1000 \<and>
          (0::rat) \<le> 500 \<and> (500::rat) \<le> 500 \<and> (500::rat) \<le> 1000 \<and>
          (0::int) < 100 \<and> (0::int) < 100 \<and> mono (fl toy_imaging) \<and> fl toy_imaging 0 = 0 \<and>
          fl toy_imaging 1 = 1 \<and>
          fl toy_imaging (of_int 100) = of_int 100 \<and> fl toy_imaging (of_int 100) = of_int 100"
    by (simp add: degenerate_def degenerate_bbox_def toy_imaging_def mono_def)
  note t1 = crop_image_isolates_inverted_box [OF toy_decode toy_size l1 q1 refl,
      where ya = 500 and xa = 500 and yb = 500 and xb = 500, THEN conjunct2, THEN mp, OF p]
  from t1 obtain box where
    "cs_cropUrl (?out ! 1) =
       (case render_png toy_imaging (100, 100) box (canvas_size box) of
          Inr png \<Rightarrow> ''data:image/png;base64,'' @ png
        | Inl e \<Rightarrow> '''')"
    by (elim exE conjE)
  then have second: "cs_cropUrl (?out ! 1) = ''data:image/png;base64,iVBORw0KGgo=''"
    by (simp add: toy_imaging_def)
  from first second show ?thesis by (rule conjI)
qed

text \<open>
  Claim C10. On a decodable image, the output segments of \<open>extract_crops\<close> carry the id,
  boundingBox, text, subject, chapter and correctAnswer of the input segments, unchanged
  and in input order. The output type \<open>CroppedSegment\<close> has no imageUrl and no
  sourceImageUrl field, and its cropUrl is newly computed: the output does not depend on
  the cropUrl, imageUrl and sourceImageUrl of the input segments.
\<close>

theorem extract_crops_frame:
  assumes dec: "decode_image L b = Inr img"
  shows "\<exists>out. extract_crops L p b segs = Inr out \<and>
           map cs_id out = map qs_id segs \<and>
           map cs_boundingBox out = map qs_boundingBox segs \<and>
           map cs_text out = map qs_text segs \<and>
           map cs_subject out = map qs_subject segs \<and>
           map cs_chapter out = map qs_chapter segs \<and>
           map cs_correctAnswer out = map qs_correctAnswer segs \<and>
           extract_crops L p b
             (map (\<lambda>s. s\<lparr>qs_cropUrl := c s, qs_imageUrl := u s, qs_sourceImageUrl := v s\<rparr>) segs)
             = Inr out"
proof -
  obtain W H where size: "image_size L img = (W, H)" by (cases "image_size L img")
  have f: "crop_one L p img W H (s\<lparr>qs_cropUrl := c s, qs_imageUrl := u s, qs_sourceImageUrl := v s\<rparr>)
           = crop_one L p img W H s" for s
    by (simp add: crop_one_def split: sum.split)
  show ?thesis
    by (simp add: extract_crops_decoded[OF dec size] crop_one_frame f comp_def)
qed

theorem extract_crops_frame_witness:
  "extract_crops toy_imaging 10 ''AAAA''
     [seg0 \<lparr>ymin = Finite 0, xmin = Finite 0, ymax = Finite 1000, xmax = Finite 1000\<rparr>,
      (seg0 \<lparr>ymin = Finite 0, xmin = Finite 900, ymax = Finite 1000, xmax = Finite 100\<rparr>)
        \<lparr>qs_id := ''2'', qs_cropUrl := Some ''old'', qs_sourceImageUrl := Some ''page''\<rparr>]
   = Inr [\<lparr>cs_id = ''1'',
           cs_boundingBox = \<lparr>ymin = Finite 0, xmin = Finite 0, ymax = Finite 1000, xmax = Finite 1000\<rparr>,
           cs_text = ''Q'', cs_cropUrl = ''data:image/png;base64,iVBORw0KGgo='',
           cs_subject = Some ''Math'', cs_chapter = None, cs_correctAnswer = None\<rparr>,
          \<lparr>cs_id = ''2'',
           cs_boundingBox = \<lparr>ymin = Finite 0, xmin = Finite 900, ymax = Finite 1000, xmax = Finite 100\<rparr>,
           cs_text = ''Q'', cs_cropUrl = '''',
           cs_subject = Some ''Math'', cs_chapter = None, cs_correctAnswer = None\<rparr>]"
proof -
  let ?a = "\<lparr>ymin = Finite 0, xmin = Finite 0, ymax = Finite 1000, xmax = Finite 1000\<rparr>"
  let ?b = "\<lparr>ymin = Finite 0, xmin = Finite 900, ymax = Finite 1000, xmax = Finite 100\<rparr>"
  have a: "crop_segment toy_imaging 10 (100, 100) ?a 100 100
             = Inr ''data:image/png;base64,iVBORw0KGgo=''"
    by (simp add: crop_segment_def crop_box_def toy_imaging_def trunc_def)
  have b: "crop_segment toy_imaging 10 (100, 100) ?b 100 100
             = Inl (Exc ValueError ''Width and height must be >= 0'')"
    by (simp add: crop_segment_def crop_box_def toy_imaging_def trunc_def)
  show ?thesis
    using extract_crops_frame [OF toy_decode, of 10
        "[seg0 ?a, (seg0 ?b)\<lparr>qs_id := ''2'', qs_cropUrl := Some ''old'', qs_sourceImageUrl := Some ''page''\<rparr>]"] a b
    by (simp add: extract_crops_decoded[OF toy_decode toy_size] crop_one_def seg0_def)
qed

section \<open>The segmentation client and the single-image endpoint\<close>

lemma bind_eq_Inr: "bind m f = Inr y \<longleftrightarrow> (\<exists>x. m = Inr x \<and> f x = Inr y)"
  by (cases m) simp_all

lemma gemini_empty:
  assumes "decode_base64 G (strip_data_url image_b64) = Inr data"
    and "generate_content G n data mimeType = Inr response_text"
    and "response_text = None \<or> response_text = Some []"
  shows "gemini_analyze_image G n image_b64 mimeType
           = Inl (Exc ValueError ''Empty response from Gemini'')"
  using assms by (auto simp: gemini_analyze_image_def analyze_image_body_def)

lemma gemini_unparseable:
  assumes "decode_base64 G (strip_data_url image_b64) = Inr data"
    and "generate_content G n data mimeType = Inr (Some txt)" and "txt \<noteq> []"
    and "json_loads G (strip txt) = Inl (Exc JSONDecodeError m)"
  shows "gemini_analyze_image G n image_b64 mimeType
           = Inl (Exc ValueError (''Failed to parse Gemini response: '' @ m))"
  using assms by (simp add: gemini_analyze_image_def analyze_image_body_def)

lemma decode_question_obj:
  "decode_question G (JObj kvs) = Inr seg \<Longrightarrow>
   (map_of kvs ''id'' = None \<longrightarrow> qs_id seg = []) \<and>
   (map_of kvs ''text'' = None \<longrightarrow> qs_text seg = []) \<and>
   (map_of kvs ''subject'' = None \<longrightarrow> qs_subject seg = None) \<and>
   (map_of kvs ''correctAnswer'' = None \<longrightarrow> qs_correctAnswer seg = None)"
  by (auto simp: decode_question_def bind_eq_Inr)

lemma decode_question_bbox_absent:
  "decode_question G (JObj kvs) = Inr seg \<Longrightarrow> map_of kvs ''boundingBox'' = None \<Longrightarrow>
   qs_boundingBox seg = whole_image"
  by (auto simp: decode_question_def bind_eq_Inr whole_image_def)

lemma decode_question_bbox_fields:
  "decode_question G (JObj kvs) = Inr seg \<Longrightarrow> map_of kvs ''boundingBox'' = Some (JObj b) \<Longrightarrow>
   (map_of b ''ymin'' = None \<longrightarrow> ymin (qs_boundingBox seg) = Finite 0) \<and>
   (map_of b ''xmin'' = None \<longrightarrow> xmin (qs_boundingBox seg) = Finite 0) \<and>
   (map_of b ''ymax'' = None \<longrightarrow> ymax (qs_boundingBox seg) = Finite 1000) \<and>
   (map_of b ''xmax'' = None \<longrightarrow> xmax (qs_boundingBox seg) = Finite 1000)"
  by (auto simp: decode_question_def bind_eq_Inr)

lemma decode_question_all_absent:
  assumes "map_of kvs ''id'' = None" "map_of kvs ''text'' = None"
    "map_of kvs ''subject'' = None" "map_of kvs ''correctAnswer'' = None"
    "map_of kvs ''boundingBox'' = None"
  shows "decode_question G (JObj kvs) =
     Inr \<lparr>qs_id = [], qs_boundingBox = whole_image, qs_text = [], qs_cropUrl = None,
          qs_imageUrl = None, qs_sourceImageUrl = None, qs_subject = None,
          qs_chapter = None, qs_correctAnswer = None\<rparr>"
  using assms by (simp add: decode_question_def whole_image_def)

lemma decode_question_required_only:
  assumes "map_of kvs ''id'' = Some (JStr i)" "map_of kvs ''text'' = Some (JStr t)"
    "map_of kvs ''subject'' = None" "map_of kvs ''correctAnswer'' = None"
    "map_of kvs ''boundingBox'' = Some (JObj b)"
    "map_of b ''ymin'' = Some (JNum ya)" "map_of b ''xmin'' = Some (JNum xa)"
    "map_of b ''ymax'' = Some (JNum yb)" "map_of b ''xmax'' = Some (JNum xb)"
  shows "decode_question G (JObj kvs) =
     Inr \<lparr>qs_id = i, qs_boundingBox = \<lparr>ymin = ya, xmin = xa, ymax = yb, xmax = xb\<rparr>,
          qs_text = t, qs_cropUrl = None, qs_imageUrl = None, qs_sourceImageUrl = None,
          qs_subject = None, qs_chapter = None, qs_correctAnswer = None\<rparr>"
  using assms by (simp add: decode_question_def)

text \<open>
  Claim C2, as stated, fails: when the external model's response is empty, the
  single-image analysis endpoint does not return \<open>success = False\<close>; the \<open>ValueError\<close> of
  the client reaches \<open>except ValueError\<close> of the endpoint, which raises \<open>HTTPException\<close>
  with status 400, a protocol-level error.
\<close>

theorem analyze_image_empty_counterexample:
  "analyze_image (toy_genai no_reply) toy_clock ''AAAA'' (Some ''image/png'')
     = Inl (HTTPException 400 ''Empty response from Gemini'')"
  by (simp add: analyze_image_def get_gemini_service_def gemini_analyze_image_def
      analyze_image_body_def decode_base64_def toy_genai_def no_reply_def is_ValueError_def)

text \<open>
  Claim C2, amended. With a configured key and a decodable payload, when the text of the
  external model's response is absent, empty, or is rejected by \<open>json.loads\<close> with a
  \<open>JSONDecodeError\<close>, the single-image analysis endpoint raises \<open>HTTPException\<close> with
  status 400 whose detail is the error text: \<open>Empty response from Gemini\<close>, or
  \<open>Failed to parse Gemini response:\<close> followed by the parser's message.
\<close>

theorem analyze_image_upstream_parse_error:
  assumes key: "get_gemini_service G = Inr ()"
    and dec: "decode_base64 G (strip_data_url image_b64) = Inr data"
    and resp: "generate_content G 0 data mimeType = Inr response_text"
    and bad: "response_text = None \<or> response_text = Some [] \<or>
              (\<exists>txt. response_text = Some txt \<and> txt \<noteq> [] \<and>
                     json_loads G (strip txt) = Inl (Exc JSONDecodeError m))"
  shows "analyze_image G clock image_b64 mimeType
           = Inl (HTTPException 400
               (if response_text = None \<or> response_text = Some []
                then ''Empty response from Gemini''
                else ''Failed to parse Gemini response: '' @ m))"
proof (cases "response_text = None \<or> response_text = Some []")
  case True
  then show ?thesis
    using gemini_empty[OF dec resp True]
    by (simp add: analyze_image_def key is_ValueError_def)
next
  case False
  with bad obtain body where t: "response_text = Some body" "body \<noteq> []"
      "json_loads G (strip body) = Inl (Exc JSONDecodeError m)"
    by auto
  show ?thesis
    using gemini_unparseable[OF dec resp[unfolded t(1)] t(2) t(3)] False
    by (simp add: analyze_image_def key is_ValueError_def)
qed

theorem analyze_image_upstream_parse_error_witness:
  "analyze_image (toy_genai garbled_reply) toy_clock ''data:image/png;base64,AAAA''
       (Some ''image/png'')
     = Inl (HTTPException 400
         ''Failed to parse Gemini response: Expecting value: line 1 column 1 (char 0)'')"
proof -
  have k: "get_gemini_service (toy_genai garbled_reply) = Inr ()"
    by (simp add: get_gemini_service_def toy_genai_def)
  have d: "decode_base64 (toy_genai garbled_reply)
             (strip_data_url ''data:image/png;base64,AAAA'') = Inr ''AAAA''"
    by (simp add: decode_base64_def toy_genai_def strip_data_url_def split_def)
  have r: "generate_content (toy_genai garbled_reply) 0 ''AAAA'' (Some ''image/png'')
             = Inr (Some ''  I found 3 questions '')"
    by (simp add: toy_genai_def garbled_reply_def)
  have s: "strip ''  I found 3 questions '' = ''I found 3 questions''"
    by (simp add: strip_def isspace_def)
  have j: "json_loads (toy_genai garbled_reply) (strip ''  I found 3 questions '')
             = Inl (Exc JSONDecodeError ''Expecting value: line 1 column 1 (char 0)'')"
    unfolding s by (simp add: toy_genai_def toy_loads_def one_question_text_def)
  show ?thesis
    using analyze_image_upstream_parse_error [OF k d r, of "''Expecting value: line 1 column 1 (char 0)''" toy_clock] j
    by simp
qed

text \<open>
  Claim C7. Decoding a question object of the parsed response: (1) an object with none
  of the five fields decodes, to id and text \<open>""\<close>, no subject, no correctAnswer and the
  whole-image box \<open>(0, 0, 1000, 1000)\<close>; (2) an object with id, text and a complete
  boundingBox but without subject and correctAnswer decodes, with both absent; (3) in
  every decoded question, an absent id or text is \<open>""\<close>, an absent subject or
  correctAnswer is \<open>None\<close>, an absent boundingBox is the whole image, and in a present
  boundingBox an absent ymin or xmin is 0 and an absent ymax or xmax is 1000.
\<close>

theorem decode_question_defaults:
  "(map_of kvs ''id'' = None \<and> map_of kvs ''text'' = None \<and> map_of kvs ''subject'' = None \<and>
    map_of kvs ''correctAnswer'' = None \<and> map_of kvs ''boundingBox'' = None \<longrightarrow>
      decode_question G (JObj kvs) =
        Inr \<lparr>qs_id = [], qs_boundingBox = whole_image, qs_text = [], qs_cropUrl = None,
             qs_imageUrl = None, qs_sourceImageUrl = None, qs_subject = None,
             qs_chapter = None, qs_correctAnswer = None\<rparr>) \<and>
   (map_of kvs ''id'' = Some (JStr i) \<and> map_of kvs ''text'' = Some (JStr t) \<and>
    map_of kvs ''subject'' = None \<and> map_of kvs ''correctAnswer'' = None \<and>
    map_of kvs ''boundingBox'' = Some (JObj b) \<and>
    map_of b ''ymin'' = Some (JNum ya) \<and> map_of b ''xmin'' = Some (JNum xa) \<and>
    map_of b ''ymax'' = Some (JNum yb) \<and> map_of b ''xmax'' = Some (JNum xb) \<longrightarrow>
      decode_question G (JObj kvs) =
        Inr \<lparr>qs_id = i, qs_boundingBox = \<lparr>ymin = ya, xmin = xa, ymax = yb, xmax = xb\<rparr>,
             qs_text = t, qs_cropUrl = None, qs_imageUrl = None, qs_sourceImageUrl = None,
             qs_subject = None, qs_chapter = None, qs_correctAnswer = None\<rparr>) \<and>
   (decode_question G (JObj kvs) = Inr seg \<longrightarrow>
      (map_of kvs ''id'' = None \<longrightarrow> qs_id seg = []) \<and>
      (map_of kvs ''text'' = None \<longrightarrow> qs_text seg = []) \<and>
      (map_of kvs ''subject'' = None \<longrightarrow> qs_subject seg = None) \<and>
      (map_of kvs ''correctAnswer'' = None \<longrightarrow> qs_correctAnswer seg = None) \<and>
      (map_of kvs ''boundingBox'' = None \<longrightarrow> qs_boundingBox seg = whole_image) \<and>
      (map_of kvs ''boundingBox'' = Some (JObj b) \<longrightarrow>
         (map_of b ''ymin'' = None \<longrightarrow> ymin (qs_boundingBox seg) = Finite 0) \<and>
         (map_of b ''xmin'' = None \<longrightarrow> xmin (qs_boundingBox seg) = Finite 0) \<and>
         (map_of b ''ymax'' = None \<longrightarrow> ymax (qs_boundingBox seg) = Finite 1000) \<and>
         (map_of b ''xmax'' = None \<longrightarrow> xmax (qs_boundingBox seg) = Finite 1000)))"
proof (intro conjI impI)
  assume "map_of kvs ''id'' = None \<and> map_of kvs ''text'' = None \<and>
    map_of kvs ''subject'' = None \<and> map_of kvs ''correctAnswer'' = None \<and>
    map_of kvs ''boundingBox'' = None"
  then show "decode_question G (JObj kvs) =
        Inr \<lparr>qs_id = [], qs_boundingBox = whole_image, qs_text = [], qs_cropUrl = None,
             qs_imageUrl = None, qs_sourceImageUrl = None, qs_subject = None,
             qs_chapter = None, qs_correctAnswer = None\<rparr>"
    by (simp add: decode_question_all_absent)
next
  assume "map_of kvs ''id'' = Some (JStr i) \<and> map_of kvs ''text'' = Some (JStr t) \<and>
    map_of kvs ''subject'' = None \<and> map_of kvs ''correctAnswer'' = None \<and>
    map_of kvs ''boundingBox'' = Some (JObj b) \<and>
    map_of b ''ymin'' = Some (JNum ya) \<and> map_of b ''xmin'' = Some (JNum xa) \<and>
    map_of b ''ymax'' = Some (JNum yb) \<and> map_of b ''xmax'' = Some (JNum xb)"
  then show "decode_question G (JObj kvs) =
        Inr \<lparr>qs_id = i, qs_boundingBox = \<lparr>ymin = ya, xmin = xa, ymax = yb, xmax = xb\<rparr>,
             qs_text = t, qs_cropUrl = None, qs_imageUrl = None, qs_sourceImageUrl = None,
             qs_subject = None, qs_chapter = None, qs_correctAnswer = None\<rparr>"
    by (simp add: decode_question_required_only)
qed (use decode_question_obj decode_question_bbox_absent decode_question_bbox_fields in blast)+

theorem decode_question_defaults_witness:
  "decode_question (toy_genai no_reply) (JObj []) =
     Inr \<lparr>qs_id = [], qs_boundingBox = whole_image, qs_text = [], qs_cropUrl = None,
          qs_imageUrl = None, qs_sourceImageUrl = None, qs_subject = None,
          qs_chapter = None, qs_correctAnswer = None\<rparr> \<and>
   decode_question (toy_genai no_reply)
       (JObj [(''id'', JStr ''7''), (''text'', JStr ''2 + 2 = ?''),
              (''boundingBox'', JObj [(''ymin'', JNum (Finite 10)), (''xmin'', JNum (Finite 20)),
                 (''ymax'', JNum (Finite 300)), (''xmax'', JNum (Finite 400))])]) =
     Inr \<lparr>qs_id = ''7'',
          qs_boundingBox = \<lparr>ymin = Finite 10, xmin = Finite 20, ymax = Finite 300, xmax = Finite 400\<rparr>,
          qs_text = ''2 + 2 = ?'', qs_cropUrl = None, qs_imageUrl = None,
          qs_sourceImageUrl = None, qs_subject = None, qs_chapter = None,
          qs_correctAnswer = None\<rparr>"
proof -
  let ?b = "[(''ymin'', JNum (Finite 10)), (''xmin'', JNum (Finite 20)),
             (''ymax'', JNum (Finite 300)), (''xmax'', JNum (Finite 400))]"
  let ?kvs = "[(''id'', JStr ''7''), (''text'', JStr ''2 + 2 = ?''), (''boundingBox'', JObj ?b)]"
  have a: "decode_question (toy_genai no_reply) (JObj []) =
     Inr \<lparr>qs_id = [], qs_boundingBox = whole_image, qs_text = [], qs_cropUrl = None,
          qs_imageUrl = None, qs_sourceImageUrl = None, qs_subject = None,
          qs_chapter = None, qs_correctAnswer = None\<rparr>"
    using decode_question_defaults [where kvs = "[]" and G = "toy_genai no_reply",
        THEN conjunct1]
    by simp
  have k: "map_of ?kvs ''id'' = Some (JStr ''7'')" "map_of ?kvs ''text'' = Some (JStr ''2 + 2 = ?'')"
    "map_of ?kvs ''subject'' = None" "map_of ?kvs ''correctAnswer'' = None"
    "map_of ?kvs ''boundingBox'' = Some (JObj ?b)"
    "map_of ?b ''ymin'' = Some (JNum (Finite 10))" "map_of ?b ''xmin'' = Some (JNum (Finite 20))"
    "map_of ?b ''ymax'' = Some (JNum (Finite 300))" "map_of ?b ''xmax'' = Some (JNum (Finite 400))"
    by simp_all
  have b: "decode_question (toy_genai no_reply) (JObj ?kvs) =
     Inr \<lparr>qs_id = ''7'',
          qs_boundingBox = \<lparr>ymin = Finite 10, xmin = Finite 20, ymax = Finite 300, xmax = Finite 400\<rparr>,
          qs_text = ''2 + 2 = ?'', qs_cropUrl = None, qs_imageUrl = None,
          qs_sourceImageUrl = None, qs_subject = None, qs_chapter = None,
          qs_correctAnswer = None\<rparr>"
    using decode_question_defaults [where kvs = ?kvs and G = "toy_genai no_reply"
        and b = ?b, THEN conjunct2, THEN conjunct1, rule_format] k
    by blast
  from a b show ?thesis by blast
qed

section \<open>The page renderer\<close>

lemma pages_loop_ok:
  assumes r: "\<forall>i \<in> set idx. i < length doc \<and> render_page P dpi (doc ! i) = Inr (png i)"
    and c: "\<forall>cb k n. on_progress = Some cb \<longrightarrow> cb k n = None"
  shows "pages_loop P dpi on_progress doc n_total idx images tr =
           (Inr (images @ map (\<lambda>i. ''data:image/png;base64,'' @ png i) idx),
            tr @ concat (map (page_events (on_progress \<noteq> None) n_total) idx))"
  using r
proof (induction idx arbitrary: images tr)
  case Nil
  then show ?case by simp
next
  case (Cons i idx)
  show ?case
  proof (cases on_progress)
    case None
    with Cons show ?thesis by (simp add: page_events_def)
  next
    case (Some cb)
    with c have "cb (Suc i) n_total = None" by simp
    with Some Cons show ?thesis by (simp add: page_events_def)
  qed
qed

lemma pages_loop_length:
  "pages_loop P dpi on_progress doc n_total idx images tr = (Inr out, tr') \<Longrightarrow>
   length out = length images + length idx"
proof (induction idx arbitrary: images tr)
  case Nil
  then show ?case by simp
next
  case (Cons i idx)
  then show ?case
    by (fastforce split: if_splits sum.splits option.splits)
qed

lemma pdf_to_images_length:
  assumes "pdf_to_images P dpi pdf_bytes on_progress = (Inr images, tr)"
  shows "\<exists>doc. fitz_open P pdf_bytes = Inr doc \<and> length images = length doc"
proof (cases "fitz_open P pdf_bytes")
  case (Inl e)
  with assms show ?thesis by (simp add: pdf_to_images_def)
next
  case (Inr doc)
  obtain r t where l: "pages_loop P dpi on_progress doc (length doc) [0..<length doc] [] [PdfOpen] = (r, t)"
    by (cases "pages_loop P dpi on_progress doc (length doc) [0..<length doc] [] [PdfOpen]")
  with assms Inr have "r = Inr images" by (simp add: pdf_to_images_def)
  with l have "length images = length doc"
    using pages_loop_length[of P dpi on_progress doc "length doc" "[0..<length doc]" "[]" "[PdfOpen]" images t]
    by simp
  with Inr show ?thesis by simp
qed

lemma str_int_3: "str_int 3 = ''3''"
  by (simp add: str_int_def str_nat.simps)

lemma str_int_12: "str_int 12 = ''12''"
  by (simp add: str_int_def str_nat.simps)

text \<open>
  Claim C8. For a document of \<open>N\<close> pages whose pages all render, and a progress callback
  (if any) that does not raise, \<open>pdf_to_images\<close> returns exactly \<open>N\<close> data URLs, the
  \<open>i\<close>-th being the rendering of page \<open>i\<close>; the callback is called after each page is
  rendered, with the number of pages done and \<open>N\<close>, and the document is closed at the
  end. \<open>pdf_to_single_image\<close> with a page index \<open>\<ge> N\<close> fails with a \<open>ValueError\<close> whose
  message names the index and \<open>N\<close>.
\<close>

theorem pdf_renders_every_page:
  assumes o: "fitz_open P pdf_bytes = Inr doc"
    and r: "\<forall>i < length doc. render_page P dpi (doc ! i) = Inr (png i)"
    and c: "\<forall>cb k n. on_progress = Some cb \<longrightarrow> cb k n = None"
    and images: "images = map (\<lambda>i. ''data:image/png;base64,'' @ png i) [0..<length doc]"
  shows "pdf_to_images P dpi pdf_bytes on_progress =
           (Inr images,
            [PdfOpen] @ concat (map (page_events (on_progress \<noteq> None) (length doc)) [0..<length doc])
              @ [PdfClose]) \<and>
         length images = length doc \<and>
         (\<forall>i < length doc. images ! i = ''data:image/png;base64,'' @ png i) \<and>
         (\<forall>page_num \<ge> int (length doc).
            pdf_to_single_image P dpi pdf_bytes page_num =
              Inl (Exc ValueError
                (''Page '' @ str_int page_num @ '' does not exist (PDF has ''
                   @ str_int (int (length doc)) @ '' pages)'')))"
proof -
  have "\<forall>i \<in> set [0..<length doc]. i < length doc \<and> render_page P dpi (doc ! i) = Inr (png i)"
    using r by simp
  from pages_loop_ok[OF this c]
  have a: "pdf_to_images P dpi pdf_bytes on_progress =
           (Inr images,
            [PdfOpen] @ concat (map (page_events (on_progress \<noteq> None) (length doc)) [0..<length doc])
              @ [PdfClose])"
    by (simp add: pdf_to_images_def o images)
  have b: "length images = length doc" by (simp add: images)
  have d: "\<forall>i < length doc. images ! i = ''data:image/png;base64,'' @ png i"
    by (simp add: images)
  have e: "\<forall>page_num \<ge> int (length doc).
            pdf_to_single_image P dpi pdf_bytes page_num =
              Inl (Exc ValueError
                (''Page '' @ str_int page_num @ '' does not exist (PDF has ''
                   @ str_int (int (length doc)) @ '' pages)''))"
    by (simp add: pdf_to_single_image_def o)
  from a b d e show ?thesis by blast
qed

theorem pdf_renders_every_page_witness:
  "pdf_to_images toy_pdflib 200 ''%PDF-3'' (Some count_cb) =
     (Inr [''data:image/png;base64,p1'', ''data:image/png;base64,p2'', ''data:image/png;base64,p3''],
      [PdfOpen, PageRender 0, ProgressCall 1 3, PageRender 1, ProgressCall 2 3,
       PageRender 2, ProgressCall 3 3, PdfClose]) \<and>
   pdf_to_single_image toy_pdflib 200 ''%PDF-3'' 3 =
     Inl (Exc ValueError ''Page 3 does not exist (PDF has 3 pages)'')"
proof -
  have o: "fitz_open toy_pdflib ''%PDF-3'' = Inr [''p1'', ''p2'', ''p3'']"
    by (simp add: toy_pdflib_def)
  have r: "\<forall>i < length [''p1'', ''p2'', ''p3''].
             render_page toy_pdflib 200 ([''p1'', ''p2'', ''p3''] ! i) = Inr ([''p1'', ''p2'', ''p3''] ! i)"
    by (simp add: toy_pdflib_def)
  have c: "\<forall>cb k n. Some count_cb = Some cb \<longrightarrow> cb k n = None"
    by (simp add: count_cb_def)
  have u: "[0..<length [''p1'', ''p2'', ''p3'']] = [0, 1, 2]"
    by (simp add: upt_rec)
  show ?thesis
    using pdf_renders_every_page [OF o r c refl] str_int_3
    by (simp add: u page_events_def)
qed

section \<open>The document analysis endpoint\<close>

lemma lower_char_dot: "lower_char c = CHR ''.'' \<Longrightarrow> c = CHR ''.''"
  by (auto simp: lower_char_def split: if_splits)

lemma lower_char_p: "lower_char c = CHR ''p'' \<Longrightarrow> c = CHR ''p'' \<or> c = CHR ''P''"
  by (auto simp: lower_char_def split: if_splits)

lemma lower_char_d: "lower_char c = CHR ''d'' \<Longrightarrow> c = CHR ''d'' \<or> c = CHR ''D''"
  by (auto simp: lower_char_def split: if_splits)

lemma lower_char_f: "lower_char c = CHR ''f'' \<Longrightarrow> c = CHR ''f'' \<or> c = CHR ''F''"
  by (auto simp: lower_char_def split: if_splits)

lemma lower_ext: "map lower_char ext = ''.pdf'' \<Longrightarrow> ext \<in> set pdf_exts"
proof -
  assume a: "map lower_char ext = ''.pdf''"
  then obtain c0 c1 c2 c3 where e: "ext = [c0, c1, c2, c3]"
    by (auto simp: map_eq_Cons_conv)
  with a have "lower_char c0 = CHR ''.''" "lower_char c1 = CHR ''p''"
    "lower_char c2 = CHR ''d''" "lower_char c3 = CHR ''f''"
    by simp_all
  then have "c0 = CHR ''.''" "c1 = CHR ''p'' \<or> c1 = CHR ''P''"
    "c2 = CHR ''d'' \<or> c2 = CHR ''D''" "c3 = CHR ''f'' \<or> c3 = CHR ''F''"
    by (simp_all add: lower_char_dot lower_char_p lower_char_d lower_char_f)
  with e show ?thesis
    unfolding pdf_exts_def by auto
qed

lemma endswith_pdf_suffix:
  assumes "endswith (lower name) ''.pdf''"
  shows "has_pdf_suffix name"
proof -
  let ?ext = "drop (length name - length ''.pdf'') name"
  from assms have "map lower_char ?ext = ''.pdf''"
    by (simp add: endswith_def lower_def drop_map)
  then have "?ext \<in> set pdf_exts" by (rule lower_ext)
  moreover have "suffix ?ext name" by (rule suffix_drop)
  ultimately show ?thesis unfolding has_pdf_suffix_def by blast
qed

text \<open>
  Claim C9. An upload whose file name does not end in \<open>.pdf\<close>, compared without regard to
  case, is rejected by \<open>analyze_pdf\<close> with \<open>HTTPException\<close> of status 400 and the detail
  \<open>File must be a PDF\<close>; the trace of events is empty: the file is not read, no document
  is opened and no page is rendered.
\<close>

theorem non_pdf_upload_rejected:
  assumes "\<not> has_pdf_suffix (filename file)"
  shows "analyze_pdf P G L clock file = (Inl (HTTPException 400 ''File must be a PDF''), [])"
proof -
  from assms have "\<not> endswith (lower (filename file)) ''.pdf''"
    using endswith_pdf_suffix by blast
  then show ?thesis by (simp add: analyze_pdf_def)
qed

theorem non_pdf_upload_rejected_witness:
  "analyze_pdf toy_pdflib (toy_genai no_reply) toy_imaging toy_clock (toy_upload ''notes.txt'')
     = (Inl (HTTPException 400 ''File must be a PDF''), [])"
proof -
  have "\<not> has_pdf_suffix (filename (toy_upload ''notes.txt''))"
    by (simp add: has_pdf_suffix_def pdf_exts_def toy_upload_def suffix_to_prefix)
  then show ?thesis by (rule non_pdf_upload_rejected)
qed

section \<open>Document endpoint: failure isolation\<close>

lemma analyze_pages_fail:
  "(i, img) \<in> set ps \<Longrightarrow> analyze_page G L i img = Inl e \<Longrightarrow>
   \<exists>e'. fst (analyze_pages G L ps allq pr tr) = Inl e'"
proof (induction ps arbitrary: allq pr tr)
  case Nil
  then show ?case by simp
next
  case (Cons p ps)
  obtain k pimg where p: "p = (k, pimg)" by (cases p)
  show ?case
  proof (cases "analyze_page G L k pimg")
    case (Inl e0)
    then show ?thesis by (simp add: p)
  next
    case (Inr res)
    with Cons.prems p have "(i, img) \<in> set ps" by auto
    from Cons.IH[OF this Cons.prems(2)] Inr show ?thesis by (simp add: p)
  qed
qed

lemma body_read_fails:
  "file_read file = Inl e \<Longrightarrow> fst (analyze_pdf_body P G L file) = Inl e"
  by (simp add: analyze_pdf_body_def)

lemma body_key_fails:
  "file_read file = Inr b \<Longrightarrow> get_gemini_service G = Inl e \<Longrightarrow>
   fst (analyze_pdf_body P G L file) = Inl e"
  by (simp add: analyze_pdf_body_def)

lemma body_render_fails:
  "file_read file = Inr b \<Longrightarrow> get_gemini_service G = Inr () \<Longrightarrow>
   fst (pdf_to_images P default_dpi b None) = Inl e \<Longrightarrow>
   fst (analyze_pdf_body P G L file) = Inl e"
  by (cases "pdf_to_images P default_dpi b None") (simp add: analyze_pdf_body_def)

lemma body_page_fails:
  assumes "file_read file = Inr b" "get_gemini_service G = Inr ()"
    "fst (pdf_to_images P default_dpi b None) = Inr imgs"
    "i < length imgs" "analyze_page G L i (imgs ! i) = Inl e"
  shows "\<exists>e'. fst (analyze_pdf_body P G L file) = Inl e'"
proof -
  obtain tr where t: "pdf_to_images P default_dpi b None = (Inr imgs, tr)"
    using assms(3) by (cases "pdf_to_images P default_dpi b None") simp
  have "(i, imgs ! i) \<in> set (enumerate 0 imgs)"
    using assms(4) by (simp add: in_set_enumerate_eq)
  from analyze_pages_fail[OF this assms(5)]
  obtain e' where "fst (analyze_pages G L (enumerate 0 imgs) [] [] (FileRead # tr)) = Inl e'"
    by blast
  then show ?thesis
    by (cases "analyze_pages G L (enumerate 0 imgs) [] [] (FileRead # tr)")
       (simp add: analyze_pdf_body_def assms(1,2) t)
qed

lemma analyze_pdf_cases:
  assumes "endswith (lower (filename file)) ''.pdf''"
  shows "analyze_pdf P G L clock file =
     (case analyze_pdf_body P G L file of
        (Inr (n, allq, pr), tr) \<Rightarrow>
          (Inr \<lparr>pdf_success = True, pdf_taskId = ''pdf_'' @ str_int (trunc (clock 2)),
                pdf_pages = int n, pdf_allQuestions = allq, pdf_pageResults = pr,
                pdf_error = None,
                pdf_processingTimeMs = Some (trunc ((clock 1 - clock 0) * 1000))\<rparr>, tr)
      | (Inl e, tr) \<Rightarrow> (Inr (failure_response e), tr))"
  using assms by (simp add: analyze_pdf_def failure_response_def split: prod.split sum.split)

lemma toy_valid_name: "endswith (lower (filename (toy_upload ''exam.PDF''))) ''.pdf''"
  by (simp add: toy_upload_def endswith_def lower_def lower_char_def)

lemma toy_pages:
  "pdf_to_images toy_pdflib default_dpi ''%PDF-3'' None =
     (Inr [''data:image/png;base64,p1'', ''data:image/png;base64,p2'', ''data:image/png;base64,p3''],
      [PdfOpen, PageRender 0, PageRender 1, PageRender 2, PdfClose])"
  by (simp add: pdf_to_images_def toy_pdflib_def upt_rec)

lemma toy_key: "get_gemini_service (toy_genai reply) = Inr ()"
  by (simp add: get_gemini_service_def toy_genai_def)

lemma toy_strip_page: "strip_data_url (''data:image/png;base64,p'' @ [c]) = ''p'' @ [c]"
  by (simp add: strip_data_url_def split_def)

lemma toy_gemini_none:
  "gemini_analyze_image (toy_genai no_reply) 0 ''data:image/png;base64,p1'' (Some ''image/png'')
     = Inl (Exc ValueError ''Empty response from Gemini'')"
  using toy_strip_page[of "CHR ''1''"]
  by (simp add: gemini_analyze_image_def analyze_image_body_def decode_base64_def
      toy_genai_def no_reply_def)

lemma toy_body_fails:
  "analyze_pdf_body toy_pdflib (toy_genai no_reply) toy_imaging (toy_upload ''exam.PDF'') =
     (Inl (Exc ValueError ''Empty response from Gemini''),
      [FileRead, PdfOpen, PageRender 0, PageRender 1, PageRender 2, PdfClose, ModelCall 0])"
  by (simp add: analyze_pdf_body_def toy_upload_def toy_key toy_pages enumerate_eq_zip upt_rec
      analyze_page_def toy_gemini_none)

text \<open>
  Claim C6. Once the file name has passed the check, \<open>analyze_pdf\<close> raises no
  \<open>HTTPException\<close>: it returns a response. A successful response has the task id
  \<open>pdf_\<close> followed by the decimal digits of \<open>int(time.time())\<close> and no error; every other
  response is the failure response of an exception \<open>e\<close>: \<open>success = False\<close>, task id
  \<open>""\<close>, \<open>pages = 0\<close>, empty \<open>allQuestions\<close> and \<open>pageResults\<close>, and the error message
  \<open>str(e)\<close>. Whenever the body of the \<open>try\<close> block raises \<open>e\<close>, the endpoint returns the
  failure response of \<open>e\<close>; and the body raises when reading the upload raises, when the
  segmentation client cannot be built, when rendering the document raises, and when
  segmenting or cropping some page raises.
\<close>

theorem analyze_pdf_failure_isolated:
  assumes v: "endswith (lower (filename file)) ''.pdf''"
  shows "(\<exists>resp tr. analyze_pdf P G L clock file = (Inr resp, tr) \<and>
            (if pdf_success resp
             then pdf_taskId resp = ''pdf_'' @ str_int (trunc (clock 2)) \<and> pdf_error resp = None
             else \<exists>e. resp = failure_response e)) \<and>
         (\<forall>e tr. analyze_pdf_body P G L file = (Inl e, tr) \<longrightarrow>
            analyze_pdf P G L clock file = (Inr (failure_response e), tr)) \<and>
         (\<forall>e. file_read file = Inl e \<longrightarrow> fst (analyze_pdf_body P G L file) = Inl e) \<and>
         (\<forall>b e. file_read file = Inr b \<and> get_gemini_service G = Inl e \<longrightarrow>
            fst (analyze_pdf_body P G L file) = Inl e) \<and>
         (\<forall>b e. file_read file = Inr b \<and> get_gemini_service G = Inr () \<and>
            fst (pdf_to_images P default_dpi b None) = Inl e \<longrightarrow>
            fst (analyze_pdf_body P G L file) = Inl e) \<and>
         (\<forall>b imgs i e. file_read file = Inr b \<and> get_gemini_service G = Inr () \<and>
            fst (pdf_to_images P default_dpi b None) = Inr imgs \<and> i < length imgs \<and>
            analyze_page G L i (imgs ! i) = Inl e \<longrightarrow>
            (\<exists>e'. fst (analyze_pdf_body P G L file) = Inl e'))"
proof -
  obtain r tr where b: "analyze_pdf_body P G L file = (r, tr)"
    by (cases "analyze_pdf_body P G L file")
  have a1: "\<exists>resp tr. analyze_pdf P G L clock file = (Inr resp, tr) \<and>
            (if pdf_success resp
             then pdf_taskId resp = ''pdf_'' @ str_int (trunc (clock 2)) \<and> pdf_error resp = None
             else \<exists>e. resp = failure_response e)"
  proof (cases r)
    case (Inl e)
    then show ?thesis
      by (auto simp: analyze_pdf_cases[OF v] b failure_response_def)
  next
    case (Inr x)
    obtain n allq pr where "x = (n, allq, pr)" by (cases x)
    with Inr show ?thesis
      by (simp add: analyze_pdf_cases[OF v] b)
  qed
  have a2: "\<forall>e tr. analyze_pdf_body P G L file = (Inl e, tr) \<longrightarrow>
            analyze_pdf P G L clock file = (Inr (failure_response e), tr)"
    by (simp add: analyze_pdf_cases[OF v])
  have a3: "\<forall>e. file_read file = Inl e \<longrightarrow> fst (analyze_pdf_body P G L file) = Inl e"
    by (simp add: body_read_fails)
  have a4: "\<forall>b e. file_read file = Inr b \<and> get_gemini_service G = Inl e \<longrightarrow>
            fst (analyze_pdf_body P G L file) = Inl e"
    by (simp add: body_key_fails)
  have a5: "\<forall>b e. file_read file = Inr b \<and> get_gemini_service G = Inr () \<and>
            fst (pdf_to_images P default_dpi b None) = Inl e \<longrightarrow>
            fst (analyze_pdf_body P G L file) = Inl e"
    using body_render_fails by blast
  have a6: "\<forall>b imgs i e. file_read file = Inr b \<and> get_gemini_service G = Inr () \<and>
            fst (pdf_to_images P default_dpi b None) = Inr imgs \<and> i < length imgs \<and>
            analyze_page G L i (imgs ! i) = Inl e \<longrightarrow>
            (\<exists>e'. fst (analyze_pdf_body P G L file) = Inl e')"
    using body_page_fails by blast
  from a1 a2 a3 a4 a5 a6 show ?thesis
    by (intro conjI)
qed

theorem analyze_pdf_failure_isolated_witness:
  "analyze_pdf toy_pdflib (toy_genai no_reply) toy_imaging toy_clock (toy_upload ''exam.PDF'') =
     (Inr \<lparr>pdf_success = False, pdf_taskId = [], pdf_pages = 0, pdf_allQuestions = [],
           pdf_pageResults = [], pdf_error = Some ''Empty response from Gemini'',
           pdf_processingTimeMs = None\<rparr>,
      [FileRead, PdfOpen, PageRender 0, PageRender 1, PageRender 2, PdfClose, ModelCall 0])"
  using analyze_pdf_failure_isolated [OF toy_valid_name, of toy_pdflib "toy_genai no_reply"
      toy_imaging toy_clock, THEN conjunct2, THEN conjunct1, THEN spec, THEN spec, THEN mp,
      OF toy_body_fails]
  by (simp add: failure_response_def)

section \<open>Document endpoint: pages in document order\<close>

lemma pages_loop_render:
  "pages_loop P dpi on_progress doc n_total idx images tr = (Inr out, tr') \<Longrightarrow>
   \<exists>bs. out = images @ map (\<lambda>b. ''data:image/png;base64,'' @ b) bs \<and>
        map (\<lambda>i. render_page P dpi (doc ! i)) idx = map Inr bs"
proof (induction idx arbitrary: images tr)
  case Nil
  then show ?case by simp
next
  case (Cons i idx)
  from Cons.prems obtain b where b: "render_page P dpi (doc ! i) = Inr b"
    by (cases "render_page P dpi (doc ! i)") (auto split: if_splits)
  from Cons.prems b obtain tr1 where
    "pages_loop P dpi on_progress doc n_total idx
       (images @ [''data:image/png;base64,'' @ b]) tr1 = (Inr out, tr')"
    by (auto split: if_splits option.splits)
  from Cons.IH[OF this] obtain bs where
    "out = (images @ [''data:image/png;base64,'' @ b]) @ map (\<lambda>b. ''data:image/png;base64,'' @ b) bs"
    "map (\<lambda>i. render_page P dpi (doc ! i)) idx = map Inr bs"
    by blast
  then have "out = images @ map (\<lambda>b. ''data:image/png;base64,'' @ b) (b # bs) \<and>
        map (\<lambda>i. render_page P dpi (doc ! i)) (i # idx) = map Inr (b # bs)"
    using b by simp
  then show ?case by blast
qed

lemma pdf_to_images_render:
  assumes "fst (pdf_to_images P dpi pdf_bytes on_progress) = Inr images"
  shows "\<exists>doc. fitz_open P pdf_bytes = Inr doc \<and> length images = length doc \<and>
           (\<forall>i < length doc. render_page P dpi (doc ! i) \<noteq> Inr []
              \<or> images ! i = ''data:image/png;base64,'') \<and>
           (\<forall>i < length doc. \<exists>b. render_page P dpi (doc ! i) = Inr b \<and>
              images ! i = ''data:image/png;base64,'' @ b)"
proof (cases "fitz_open P pdf_bytes")
  case (Inl e)
  with assms show ?thesis by (simp add: pdf_to_images_def)
next
  case (Inr doc)
  obtain r t where l: "pages_loop P dpi on_progress doc (length doc) [0..<length doc] [] [PdfOpen] = (r, t)"
    by (cases "pages_loop P dpi on_progress doc (length doc) [0..<length doc] [] [PdfOpen]")
  with assms Inr have "r = Inr images" by (simp add: pdf_to_images_def)
  with l pages_loop_render[of P dpi on_progress doc "length doc" "[0..<length doc]" "[]" "[PdfOpen]" images t]
  obtain bs where bs: "images = map (\<lambda>b. ''data:image/png;base64,'' @ b) bs"
    "map (\<lambda>i. render_page P dpi (doc ! i)) [0..<length doc] = map Inr bs"
    by auto
  from bs(2) have len: "length bs = length doc"
    by (metis length_map length_upt minus_nat.diff_0)
  have nth: "render_page P dpi (doc ! i) = Inr (bs ! i)" if "i < length doc" for i
  proof -
    have "map (\<lambda>i. render_page P dpi (doc ! i)) [0..<length doc] ! i = map Inr bs ! i"
      using bs(2) by simp
    with that len show ?thesis by simp
  qed
  have "\<forall>i < length doc. \<exists>b. render_page P dpi (doc ! i) = Inr b \<and>
              images ! i = ''data:image/png;base64,'' @ b"
    using nth len bs(1) by simp
  moreover have "length images = length doc" using bs(1) len by simp
  ultimately show ?thesis using Inr by auto
qed

lemma analyze_pages_ok:
  "analyze_pages G L ps allq pr tr = (Inr (allq', pr'), tr') \<Longrightarrow>
   \<exists>rs. pr' = pr @ rs \<and> allq' = allq @ concat (map questions rs) \<and>
        map (\<lambda>p. analyze_page G L (fst p) (snd p)) ps = map Inr rs"
proof (induction ps arbitrary: allq pr tr)
  case Nil
  then show ?case by simp
next
  case (Cons p ps)
  obtain k pimg where p: "p = (k, pimg)" by (cases p)
  from Cons.prems p obtain res where res: "analyze_page G L k pimg = Inr res"
    by (cases "analyze_page G L k pimg") auto
  with Cons.prems p have
    "analyze_pages G L ps (allq @ questions res) (pr @ [res]) (tr @ [ModelCall k]) = (Inr (allq', pr'), tr')"
    by simp
  from Cons.IH[OF this] obtain rs where
    "pr' = (pr @ [res]) @ rs" "allq' = (allq @ questions res) @ concat (map questions rs)"
    "map (\<lambda>p. analyze_page G L (fst p) (snd p)) ps = map Inr rs"
    by blast
  then have "pr' = pr @ (res # rs) \<and> allq' = allq @ concat (map questions (res # rs)) \<and>
        map (\<lambda>p. analyze_page G L (fst p) (snd p)) (p # ps) = map Inr (res # rs)"
    using res p by simp
  then show ?case by blast
qed

lemma attach_loop_length [simp]: "length (attach_loop img cropped j qs) = length qs"
  by (induction qs arbitrary: j) simp_all

lemma attach_loop_nth:
  "j + length qs \<le> length cropped \<Longrightarrow> k < length qs \<Longrightarrow>
   attach_loop img cropped j qs ! k =
     (qs ! k)\<lparr>qs_cropUrl := Some (cs_cropUrl (cropped ! (j + k))), qs_sourceImageUrl := Some img\<rparr>"
proof (induction qs arbitrary: j k)
  case Nil
  then show ?case by simp
next
  case (Cons q qs)
  show ?case
  proof (cases k)
    case 0
    with Cons.prems show ?thesis by simp
  next
    case (Suc k')
    with Cons.prems have "Suc j + length qs \<le> length cropped" "k' < length qs" by simp_all
    from Cons.IH[OF this] Suc show ?thesis by simp
  qed
qed

lemma extract_crops_length:
  "extract_crops L p b segs = Inr out \<Longrightarrow> length out = length segs"
  by (cases "decode_image L b")
     (auto simp: extract_crops_def crop_loop_eq split: prod.splits)

lemma analyze_page_ok:
  assumes "analyze_page G L i img = Inr result"
  shows "\<exists>raw. gemini_analyze_image G i img (Some ''image/png'') = Inr raw \<and>
           length (questions result) = length (questions raw) \<and>
           (questions raw = [] \<longrightarrow> result = raw) \<and>
           (questions raw \<noteq> [] \<longrightarrow>
              (\<exists>cropped. extract_crops L default_padding img (questions raw) = Inr cropped \<and>
                 (\<forall>j < length (questions raw). questions result ! j =
                    (questions raw ! j)\<lparr>qs_cropUrl := Some (cs_cropUrl (cropped ! j)),
                                         qs_sourceImageUrl := Some img\<rparr>)))"
proof -
  from assms obtain raw where raw: "gemini_analyze_image G i img (Some ''image/png'') = Inr raw"
    by (cases "gemini_analyze_image G i img (Some ''image/png'')") (simp_all add: analyze_page_def)
  show ?thesis
  proof (cases "questions raw = []")
    case True
    with assms raw show ?thesis by (simp add: analyze_page_def)
  next
    case False
    with assms raw obtain cropped where
      c: "extract_crops L default_padding img (questions raw) = Inr cropped"
      and r: "result = raw\<lparr>questions := attach_loop img cropped 0 (questions raw)\<rparr>"
      by (cases "extract_crops L default_padding img (questions raw)")
         (auto simp: analyze_page_def)
    from c have len: "length cropped = length (questions raw)" by (rule extract_crops_length)
    have "\<forall>j < length (questions raw). questions result ! j =
                    (questions raw ! j)\<lparr>qs_cropUrl := Some (cs_cropUrl (cropped ! j)),
                                         qs_sourceImageUrl := Some img\<rparr>"
      using attach_loop_nth[of 0 "questions raw" cropped _ img] len r by simp
    with raw c r False show ?thesis by simp
  qed
qed

lemma analyze_page_refs:
  assumes "analyze_page G L i img = Inr result" "q \<in> set (questions result)"
  shows "qs_cropUrl q \<noteq> None \<and> qs_sourceImageUrl q = Some img"
proof -
  from assms(2) obtain j where j: "j < length (questions result)" and q: "q = questions result ! j"
    by (auto simp: in_set_conv_nth)
  from analyze_page_ok[OF assms(1)] obtain raw where
    a: "gemini_analyze_image G i img (Some ''image/png'') = Inr raw \<and>
           length (questions result) = length (questions raw) \<and>
           (questions raw = [] \<longrightarrow> result = raw) \<and>
           (questions raw \<noteq> [] \<longrightarrow>
              (\<exists>cropped. extract_crops L default_padding img (questions raw) = Inr cropped \<and>
                 (\<forall>j < length (questions raw). questions result ! j =
                    (questions raw ! j)\<lparr>qs_cropUrl := Some (cs_cropUrl (cropped ! j)),
                                         qs_sourceImageUrl := Some img\<rparr>)))"
    by (rule exE)
  note l = a[THEN conjunct2, THEN conjunct1]
  note n = a[THEN conjunct2, THEN conjunct2, THEN conjunct2]
  from j l have "questions raw \<noteq> []" by auto
  with n have "\<exists>cropped. extract_crops L default_padding img (questions raw) = Inr cropped \<and>
                 (\<forall>j < length (questions raw). questions result ! j =
                    (questions raw ! j)\<lparr>qs_cropUrl := Some (cs_cropUrl (cropped ! j)),
                                         qs_sourceImageUrl := Some img\<rparr>)"
    by (rule mp)
  then obtain cropped where
    c0: "extract_crops L default_padding img (questions raw) = Inr cropped \<and>
                 (\<forall>j < length (questions raw). questions result ! j =
                    (questions raw ! j)\<lparr>qs_cropUrl := Some (cs_cropUrl (cropped ! j)),
                                         qs_sourceImageUrl := Some img\<rparr>)"
    by (rule exE)
  note c = c0[THEN conjunct2]
  from j l have "j < length (questions raw)" by simp
  with c have "questions result ! j =
                    (questions raw ! j)\<lparr>qs_cropUrl := Some (cs_cropUrl (cropped ! j)),
                                         qs_sourceImageUrl := Some img\<rparr>"
    by (simp only:)
  then have "q = (questions raw ! j)\<lparr>qs_cropUrl := Some (cs_cropUrl (cropped ! j)),
                                         qs_sourceImageUrl := Some img\<rparr>"
    by (simp only: q)
  then show ?thesis by simp
qed

lemma body_ok:
  assumes "analyze_pdf_body P G L file = (Inr (n, allq, pr), tr)"
  shows "\<exists>pdf_bytes imgs tr0. file_read file = Inr pdf_bytes \<and>
           pdf_to_images P default_dpi pdf_bytes None = (Inr imgs, tr0) \<and> n = length imgs \<and>
           analyze_pages G L (enumerate 0 imgs) [] [] (FileRead # tr0) = (Inr (allq, pr), tr)"
proof (cases "file_read file")
  case (Inl e)
  with assms show ?thesis by (simp add: analyze_pdf_body_def)
next
  case (Inr pdf_bytes)
  show ?thesis
  proof (cases "get_gemini_service G")
    case (Inl e)
    with assms Inr show ?thesis by (simp add: analyze_pdf_body_def)
  next
    case k: (Inr u)
    obtain r0 tr0 where p: "pdf_to_images P default_dpi pdf_bytes None = (r0, tr0)"
      by (cases "pdf_to_images P default_dpi pdf_bytes None")
    show ?thesis
    proof (cases r0)
      case (Inl e)
      with assms Inr k p show ?thesis by (simp add: analyze_pdf_body_def)
    next
      case i: (Inr imgs)
      obtain r1 tr1 where a: "analyze_pages G L (enumerate 0 imgs) [] [] (FileRead # tr0) = (r1, tr1)"
        by (cases "analyze_pages G L (enumerate 0 imgs) [] [] (FileRead # tr0)")
      show ?thesis
      proof (cases r1)
        case (Inl e)
        with assms Inr k p i a show ?thesis by (simp add: analyze_pdf_body_def)
      next
        case r: (Inr x)
        obtain aq rs where x: "x = (aq, rs)" by (cases x)
        from assms Inr k p i a r x have "n = length imgs" "allq = aq" "pr = rs" "tr = tr1"
          by (simp_all add: analyze_pdf_body_def)
        with Inr p i a r x show ?thesis by simp
      qed
    qed
  qed
qed

lemma analyze_pdf_success:
  assumes "analyze_pdf P G L clock file = (Inr resp, tr)" "pdf_success resp"
  shows "\<exists>n. analyze_pdf_body P G L file =
           (Inr (n, pdf_allQuestions resp, pdf_pageResults resp), tr) \<and> pdf_pages resp = int n"
proof -
  have v: "endswith (lower (filename file)) ''.pdf''"
    using assms(1) by (auto simp: analyze_pdf_def split: if_splits)
  obtain r t where b: "analyze_pdf_body P G L file = (r, t)"
    by (cases "analyze_pdf_body P G L file")
  show ?thesis
  proof (cases r)
    case (Inl e)
    with assms b show ?thesis
      by (auto simp: analyze_pdf_cases[OF v] failure_response_def)
  next
    case (Inr x)
    obtain n allq pr where "x = (n, allq, pr)" by (cases x)
    with assms b Inr show ?thesis
      by (auto simp: analyze_pdf_cases[OF v])
  qed
qed

lemma enumerate_pages:
  assumes "map (\<lambda>p. analyze_page G L (fst p) (snd p)) (enumerate 0 imgs) = map Inr rs"
  shows "length rs = length imgs"
    and "i < length imgs \<Longrightarrow> analyze_page G L i (imgs ! i) = Inr (rs ! i)"
proof -
  have "length (map (\<lambda>p. analyze_page G L (fst p) (snd p)) (enumerate 0 imgs))
          = length (map (Inr :: AnalysisResult \<Rightarrow> error + AnalysisResult) rs)"
    by (simp only: assms)
  then show l: "length rs = length imgs" by simp
  assume i: "i < length imgs"
  have "map (\<lambda>p. analyze_page G L (fst p) (snd p)) (enumerate 0 imgs) ! i = map Inr rs ! i"
    by (simp only: assms)
  with i l show "analyze_page G L i (imgs ! i) = Inr (rs ! i)"
    by (simp add: nth_enumerate_eq)
qed

lemma toy_gemini_one:
  "n \<noteq> 1 \<Longrightarrow>
   gemini_analyze_image (toy_genai three_replies) n page_image (Some ''image/png'')
     = Inr \<lparr>questions = [\<lparr>qs_id = [], qs_boundingBox = whole_image, qs_text = [],
              qs_cropUrl = None, qs_imageUrl = None, qs_sourceImageUrl = None,
              qs_subject = None, qs_chapter = None, qs_correctAnswer = None\<rparr>]\<rparr>"
proof -
  assume n: "n \<noteq> 1"
  have s: "strip one_question_text = one_question_text"
    by (simp add: strip_def one_question_text_def isspace_def)
  have d: "decode_question (toy_genai three_replies) (JObj []) =
     Inr \<lparr>qs_id = [], qs_boundingBox = whole_image, qs_text = [], qs_cropUrl = None,
          qs_imageUrl = None, qs_sourceImageUrl = None, qs_subject = None,
          qs_chapter = None, qs_correctAnswer = None\<rparr>"
    by (simp add: decode_question_all_absent)
  have ne: "one_question_text \<noteq> []" by (simp add: one_question_text_def)
  have l: "json_loads (toy_genai three_replies) one_question_text =
             Inr (JObj [(''questions'', JArr [JObj []])])"
    by (simp add: toy_genai_def toy_loads_def one_question_text_def)
  have g: "generate_content (toy_genai three_replies) n x m = Inr (Some one_question_text)" for x m
    using n by (simp add: toy_genai_def three_replies_def)
  have "\<exists>data. decode_base64 (toy_genai three_replies) (strip_data_url page_image) = Inr data"
    by (simp add: decode_base64_def toy_genai_def Let_def)
  then obtain data where
    b: "decode_base64 (toy_genai three_replies) (strip_data_url page_image) = Inr data" ..
  show ?thesis
    by (simp add: gemini_analyze_image_def analyze_image_body_def b g ne s l d)
qed

lemma toy_gemini_zero:
  "gemini_analyze_image (toy_genai three_replies) (Suc 0) page_image (Some ''image/png'')
     = Inr \<lparr>questions = []\<rparr>"
proof -
  have s: "strip ''{}'' = ''{}''" by (simp add: strip_def isspace_def)
  have l: "json_loads (toy_genai three_replies) ''{}'' = Inr (JObj [])"
    by (simp add: toy_genai_def toy_loads_def)
  have g: "generate_content (toy_genai three_replies) (Suc 0) x m = Inr (Some ''{}'')" for x m
    by (simp add: toy_genai_def three_replies_def)
  have "\<exists>data. decode_base64 (toy_genai three_replies) (strip_data_url page_image) = Inr data"
    by (simp add: decode_base64_def toy_genai_def Let_def)
  then obtain data where
    b: "decode_base64 (toy_genai three_replies) (strip_data_url page_image) = Inr data" ..
  show ?thesis
    by (simp add: gemini_analyze_image_def analyze_image_body_def b g s l)
qed

lemma toy_whole_crop:
  "crop_segment toy_imaging default_padding (100, 100) whole_image 100 100
     = Inr ''data:image/png;base64,iVBORw0KGgo=''"
  by (simp add: crop_segment_def crop_box_def whole_image_def toy_imaging_def trunc_def
      default_padding_def)

lemma toy_page_one:
  assumes "n \<noteq> 1" and "decode_image toy_imaging page_image = Inr (100, 100)"
  shows "analyze_page (toy_genai three_replies) toy_imaging n page_image =
     Inr \<lparr>questions = [toy_question page_image]\<rparr>"
  by (simp add: analyze_page_def toy_gemini_one[OF assms(1)]
      extract_crops_decoded[OF assms(2) toy_size] crop_one_def toy_whole_crop toy_question_def)

lemma toy_page_zero:
  "analyze_page (toy_genai three_replies) toy_imaging (Suc 0) page_image =
     Inr \<lparr>questions = []\<rparr>"
  by (simp add: analyze_page_def toy_gemini_zero)

lemma toy_analysis:
  "analyze_pdf toy_pdflib (toy_genai three_replies) toy_imaging toy_clock (toy_upload ''exam.PDF'')
     = (Inr toy_response, toy_trace)"
proof -
  have t: "trunc (toy_clock 2) = 1700000001"
    "trunc (toy_clock (Suc 0) * 1000 - toy_clock 0 * 1000) = 500"
    by (simp_all add: toy_clock_def trunc_def)
  have n: "str_int 1700000001 = ''1700000001''"
    by (simp add: str_int_def str_nat.simps)
  have d1: "decode_image toy_imaging ''data:image/png;base64,p1'' = Inr (100, 100)"
    by (simp add: decode_image_def toy_imaging_def strip_data_url_def split_def)
  have d3: "decode_image toy_imaging ''data:image/png;base64,p3'' = Inr (100, 100)"
    by (simp add: decode_image_def toy_imaging_def strip_data_url_def split_def)
  have p1: "analyze_page (toy_genai three_replies) toy_imaging 0 ''data:image/png;base64,p1'' =
     Inr \<lparr>questions = [toy_question ''data:image/png;base64,p1'']\<rparr>"
    by (rule toy_page_one[OF _ d1]) simp
  have p3: "analyze_page (toy_genai three_replies) toy_imaging (Suc (Suc 0))
       ''data:image/png;base64,p3'' =
     Inr \<lparr>questions = [toy_question ''data:image/png;base64,p3'']\<rparr>"
    by (rule toy_page_one[OF _ d3]) simp
  have b: "analyze_pdf_body toy_pdflib (toy_genai three_replies) toy_imaging (toy_upload ''exam.PDF'') =
     (Inr (3, pdf_allQuestions toy_response, pdf_pageResults toy_response), toy_trace)"
    by (simp add: analyze_pdf_body_def toy_upload_def[of "''exam.PDF''"] toy_key toy_pages
        enumerate_eq_zip upt_rec p1 toy_page_zero p3 toy_response_def toy_trace_def)
  show ?thesis
    using toy_valid_name
    by (simp add: analyze_pdf_def b t n) (simp add: toy_response_def)
qed

text \<open>
  Claim C5. If \<open>analyze_pdf\<close> returns a successful response, then the upload was read, the
  document opened with \<open>N\<close> pages, each of which rendered to a data URL, and: \<open>pages = N\<close>;
  \<open>pageResults\<close> has exactly \<open>N\<close> entries, the \<open>i\<close>-th being the analysis of the \<open>i\<close>-th page;
  \<open>allQuestions\<close> is the concatenation of the question lists of \<open>pageResults\<close> in page
  order, so its length is the sum of the pages' question counts; a page on which the
  external model found no question is kept as returned; on a page with at least one
  question there are as many questions as the external model found, and the \<open>j\<close>-th one is
  the model's \<open>j\<close>-th question with \<open>cropUrl\<close> set to the crop artifact of the \<open>j\<close>-th
  cropped segment (the output of \<open>extract_crops\<close> for that page, with padding 10) and
  \<open>sourceImageUrl\<close> set to the data URL of the page; so every question of the response
  has a \<open>cropUrl\<close> and the \<open>sourceImageUrl\<close> of its page.
\<close>

theorem analyze_pdf_pages_in_order:
  assumes ok: "analyze_pdf P G L clock file = (Inr resp, tr)" and s: "pdf_success resp"
  shows "\<exists>pdf_bytes doc page_images.
     file_read file = Inr pdf_bytes \<and> fitz_open P pdf_bytes = Inr doc \<and>
     fst (pdf_to_images P default_dpi pdf_bytes None) = Inr page_images \<and>
     length page_images = length doc \<and>
     (\<forall>i < length doc. \<exists>b. render_page P default_dpi (doc ! i) = Inr b \<and>
        page_images ! i = ''data:image/png;base64,'' @ b) \<and>
     pdf_pages resp = int (length doc) \<and>
     length (pdf_pageResults resp) = length doc \<and>
     pdf_allQuestions resp = concat (map questions (pdf_pageResults resp)) \<and>
     length (pdf_allQuestions resp) =
       sum_list (map (\<lambda>r. length (questions r)) (pdf_pageResults resp)) \<and>
     (\<forall>i < length doc.
        analyze_page G L i (page_images ! i) = Inr (pdf_pageResults resp ! i) \<and>
        (\<exists>raw. gemini_analyze_image G i (page_images ! i) (Some ''image/png'') = Inr raw \<and>
           length (questions (pdf_pageResults resp ! i)) = length (questions raw) \<and>
           (questions raw = [] \<longrightarrow> pdf_pageResults resp ! i = raw) \<and>
           (questions raw \<noteq> [] \<longrightarrow>
              (\<exists>cropped. extract_crops L default_padding (page_images ! i) (questions raw) = Inr cropped \<and>
                 (\<forall>j < length (questions raw). questions (pdf_pageResults resp ! i) ! j =
                    (questions raw ! j)\<lparr>qs_cropUrl := Some (cs_cropUrl (cropped ! j)),
                                         qs_sourceImageUrl := Some (page_images ! i)\<rparr>)))) \<and>
        (\<forall>q \<in> set (questions (pdf_pageResults resp ! i)).
           qs_cropUrl q \<noteq> None \<and> qs_sourceImageUrl q = Some (page_images ! i)))"
proof -
  from analyze_pdf_success[OF ok s] obtain n where
    bd: "analyze_pdf_body P G L file = (Inr (n, pdf_allQuestions resp, pdf_pageResults resp), tr)"
    and pn: "pdf_pages resp = int n"
    by blast
  from body_ok[OF bd]
  obtain pdf_bytes imgs tr0 where
    f: "file_read file = Inr pdf_bytes"
    and p: "pdf_to_images P default_dpi pdf_bytes None = (Inr imgs, tr0)"
    and n: "n = length imgs"
    and a: "analyze_pages G L (enumerate 0 imgs) [] [] (FileRead # tr0)
              = (Inr (pdf_allQuestions resp, pdf_pageResults resp), tr)"
    by blast
  have v: "endswith (lower (filename file)) ''.pdf''"
    using ok by (auto simp: analyze_pdf_def split: if_splits)
  have pages: "pdf_pages resp = int (length imgs)"
    using pn n by simp
  from p have "fst (pdf_to_images P default_dpi pdf_bytes None) = Inr imgs" by simp
  from pdf_to_images_render[OF this] obtain doc where
    d: "fitz_open P pdf_bytes = Inr doc" and l: "length imgs = length doc"
    and rd: "\<forall>i < length doc. \<exists>b. render_page P default_dpi (doc ! i) = Inr b \<and>
              imgs ! i = ''data:image/png;base64,'' @ b"
    by blast
  from analyze_pages_ok[OF a] obtain rs where
    rs: "pdf_pageResults resp = rs" "pdf_allQuestions resp = concat (map questions rs)"
    and m: "map (\<lambda>p. analyze_page G L (fst p) (snd p)) (enumerate 0 imgs) = map Inr rs"
    by auto
  note e = enumerate_pages[OF m]
  have len: "length (pdf_allQuestions resp) =
       sum_list (map (\<lambda>r. length (questions r)) (pdf_pageResults resp))"
    by (simp add: rs length_concat comp_def)
  have per: "\<forall>i < length doc.
        analyze_page G L i (imgs ! i) = Inr (pdf_pageResults resp ! i) \<and>
        (\<exists>raw. gemini_analyze_image G i (imgs ! i) (Some ''image/png'') = Inr raw \<and>
           length (questions (pdf_pageResults resp ! i)) = length (questions raw) \<and>
           (questions raw = [] \<longrightarrow> pdf_pageResults resp ! i = raw) \<and>
           (questions raw \<noteq> [] \<longrightarrow>
              (\<exists>cropped. extract_crops L default_padding (imgs ! i) (questions raw) = Inr cropped \<and>
                 (\<forall>j < length (questions raw). questions (pdf_pageResults resp ! i) ! j =
                    (questions raw ! j)\<lparr>qs_cropUrl := Some (cs_cropUrl (cropped ! j)),
                                         qs_sourceImageUrl := Some (imgs ! i)\<rparr>)))) \<and>
        (\<forall>q \<in> set (questions (pdf_pageResults resp ! i)).
           qs_cropUrl q \<noteq> None \<and> qs_sourceImageUrl q = Some (imgs ! i))"
  proof (intro allI impI)
    fix i assume "i < length doc"
    with l have i: "i < length imgs" by simp
    from e(2)[OF i] have ap: "analyze_page G L i (imgs ! i) = Inr (pdf_pageResults resp ! i)"
      by (simp add: rs)
    note k = analyze_page_ok[OF ap]
    have r: "\<forall>q \<in> set (questions (pdf_pageResults resp ! i)).
           qs_cropUrl q \<noteq> None \<and> qs_sourceImageUrl q = Some (imgs ! i)"
      using analyze_page_refs[OF ap] by (intro ballI)
    from ap k r
    show "analyze_page G L i (imgs ! i) = Inr (pdf_pageResults resp ! i) \<and>
        (\<exists>raw. gemini_analyze_image G i (imgs ! i) (Some ''image/png'') = Inr raw \<and>
           length (questions (pdf_pageResults resp ! i)) = length (questions raw) \<and>
           (questions raw = [] \<longrightarrow> pdf_pageResults resp ! i = raw) \<and>
           (questions raw \<noteq> [] \<longrightarrow>
              (\<exists>cropped. extract_crops L default_padding (imgs ! i) (questions raw) = Inr cropped \<and>
                 (\<forall>j < length (questions raw). questions (pdf_pageResults resp ! i) ! j =
                    (questions raw ! j)\<lparr>qs_cropUrl := Some (cs_cropUrl (cropped ! j)),
                                         qs_sourceImageUrl := Some (imgs ! i)\<rparr>)))) \<and>
        (\<forall>q \<in> set (questions (pdf_pageResults resp ! i)).
           qs_cropUrl q \<noteq> None \<and> qs_sourceImageUrl q = Some (imgs ! i))"
      by (intro conjI)
  qed
  have "file_read file = Inr pdf_bytes \<and> fitz_open P pdf_bytes = Inr doc \<and>
     fst (pdf_to_images P default_dpi pdf_bytes None) = Inr imgs \<and>
     length imgs = length doc \<and>
     (\<forall>i < length doc. \<exists>b. render_page P default_dpi (doc ! i) = Inr b \<and>
        imgs ! i = ''data:image/png;base64,'' @ b) \<and>
     pdf_pages resp = int (length doc) \<and>
     length (pdf_pageResults resp) = length doc \<and>
     pdf_allQuestions resp = concat (map questions (pdf_pageResults resp)) \<and>
     length (pdf_allQuestions resp) =
       sum_list (map (\<lambda>r. length (questions r)) (pdf_pageResults resp)) \<and>
     (\<forall>i < length doc.
        analyze_page G L i (imgs ! i) = Inr (pdf_pageResults resp ! i) \<and>
        (\<exists>raw. gemini_analyze_image G i (imgs ! i) (Some ''image/png'') = Inr raw \<and>
           length (questions (pdf_pageResults resp ! i)) = length (questions raw) \<and>
           (questions raw = [] \<longrightarrow> pdf_pageResults resp ! i = raw) \<and>
           (questions raw \<noteq> [] \<longrightarrow>
              (\<exists>cropped. extract_crops L default_padding (imgs ! i) (questions raw) = Inr cropped \<and>
                 (\<forall>j < length (questions raw). questions (pdf_pageResults resp ! i) ! j =
                    (questions raw ! j)\<lparr>qs_cropUrl := Some (cs_cropUrl (cropped ! j)),
                                         qs_sourceImageUrl := Some (imgs ! i)\<rparr>)))) \<and>
        (\<forall>q \<in> set (questions (pdf_pageResults resp ! i)).
           qs_cropUrl q \<noteq> None \<and> qs_sourceImageUrl q = Some (imgs ! i)))"
    using f d p l rd pages e(1) rs(1) len per by (simp only: fst_conv rs(2) simp_thms)
  then show ?thesis by (intro exI)
qed

theorem analyze_pdf_pages_in_order_witness:
  "analyze_pdf toy_pdflib (toy_genai three_replies) toy_imaging toy_clock (toy_upload ''exam.PDF'')
     = (Inr toy_response, toy_trace) \<and>
   pdf_pages toy_response = 3 \<and> length (pdf_pageResults toy_response) = 3 \<and>
   length (pdf_allQuestions toy_response) = 2"
proof -
  have s: "pdf_success toy_response" by (simp add: toy_response_def)
  from analyze_pdf_pages_in_order [OF toy_analysis s]
  obtain pdf_bytes doc where
    f: "file_read (toy_upload ''exam.PDF'') = Inr pdf_bytes"
    and d: "fitz_open toy_pdflib pdf_bytes = Inr doc"
    and p: "pdf_pages toy_response = int (length doc)"
    and r: "length (pdf_pageResults toy_response) = length doc"
    and q: "length (pdf_allQuestions toy_response) =
       sum_list (map (\<lambda>r. length (questions r)) (pdf_pageResults toy_response))"
    by blast
  from f have "pdf_bytes = ''%PDF-3''" by (simp add: toy_upload_def)
  with d have "doc = [''p1'', ''p2'', ''p3'']" by (simp add: toy_pdflib_def)
  with p r have a: "pdf_pages toy_response = 3" "length (pdf_pageResults toy_response) = 3"
    by simp_all
  from q have c: "length (pdf_allQuestions toy_response) = 2"
    by (simp add: toy_response_def)
  from toy_analysis a c show ?thesis by blast
qed

end
